theory Spec2Isabelle
  imports Main "HOL-Library.AList"
begin

section \<open>JavaScript strings\<close>

text \<open>
  A JavaScript string is a sequence of UTF-16 code units.  Each code unit is kept as its
  number (an integer from 0 to 65535), so that the character classes of \<open>trim\<close>, of regular expressions and of
  \<open>JSON.parse\<close> can be written exactly as the language defines them.  \<open>jstr\<close> turns an
  ASCII literal into such a sequence.
\<close>

type_synonym js_string = "int list"

definition jstr :: "string \<Rightarrow> js_string" where
  "jstr s = map of_char s"

text \<open>White space and line terminators: what \<open>String.prototype.trim\<close> strips and what
  the regular expression class \<open>\s\<close> matches.\<close>

definition is_js_space :: "int \<Rightarrow> bool" where
  "is_js_space c =
     (c = 9 \<or> c = 10 \<or> c = 11 \<or> c = 12 \<or> c = 13 \<or> c = 32 \<or> c = 160 \<or> c = 5760 \<or>
      (8192 \<le> c \<and> c \<le> 8202) \<or> c = 8232 \<or> c = 8233 \<or> c = 8239 \<or> c = 8287 \<or>
      c = 12288 \<or> c = 65279)"

text \<open>Line terminators: the code units the regular expression \<open>.\<close> does not match.\<close>

definition is_line_terminator :: "int \<Rightarrow> bool" where
  "is_line_terminator c = (c = 10 \<or> c = 13 \<or> c = 8232 \<or> c = 8233)"

definition trim :: "js_string \<Rightarrow> js_string" where
  "trim s = rev (dropWhile is_js_space (rev (dropWhile is_js_space s)))"

text \<open>\<open>s.split(sep)\<close> for a one-unit separator: never empty, \<open>"".split("\n")\<close> is \<open>[""]\<close>.\<close>

fun split_on :: "int \<Rightarrow> js_string \<Rightarrow> js_string list" where
  "split_on sep [] = [[]]"
| "split_on sep (c # cs) =
     (if c = sep then [] # split_on sep cs
      else (case split_on sep cs of
              [] \<Rightarrow> [[c]]
            | l # ls \<Rightarrow> (c # l) # ls))"

text \<open>\<open>`${n}`\<close> for an integer-valued number.\<close>

function digits_of :: "int \<Rightarrow> js_string" where
  "digits_of n = (if n < 10 then [48 + n] else digits_of (n div 10) @ [48 + n mod 10])"
  by pat_completeness auto
termination
  by (relation "measure nat") auto

definition show_int :: "int \<Rightarrow> js_string" where
  "show_int i = (if i < 0 then 45 # digits_of (- i) else digits_of i)"

section \<open>JSON.parse\<close>

text \<open>
  \<open>JSON.parse\<close> is the platform's parser.  It is modelled after the JSON grammar it
  implements: a lexer, then an automaton with a stack of open containers.  \<open>None\<close> is
  the \<open>SyntaxError\<close> it throws.  Numbers keep their lexeme (no floating point value is
  needed here); an object keeps its members in source order, and a later member with the
  same key overrides an earlier one when the key is read.
\<close>

datatype json =
    JNull
  | JBool bool
  | JNumber js_string
  | JString js_string
  | JArray "json list"
  | JObject "(js_string \<times> json) list"

datatype token =
    TLBrace | TRBrace | TLBrack | TRBrack | TColon | TComma
  | TStr js_string | TNum js_string | TTrue | TFalse | TNull

definition is_json_ws :: "int \<Rightarrow> bool" where
  "is_json_ws c = (c = 9 \<or> c = 10 \<or> c = 13 \<or> c = 32)"

definition is_digit :: "int \<Rightarrow> bool" where
  "is_digit c = (48 \<le> c \<and> c \<le> 57)"

definition hex_val :: "int \<Rightarrow> int option" where
  "hex_val c =
     (if 48 \<le> c \<and> c \<le> 57 then Some (c - 48)
      else if 65 \<le> c \<and> c \<le> 70 then Some (c - 55)
      else if 97 \<le> c \<and> c \<le> 102 then Some (c - 87)
      else None)"

text \<open>The single-character escapes: \<open>\" \\ \/ \b \f \n \r \t\<close>.\<close>

definition unescape :: "int \<Rightarrow> int option" where
  "unescape e =
     (if e = 34 then Some 34 else if e = 92 then Some 92 else if e = 47 then Some 47
      else if e = 98 then Some 8 else if e = 102 then Some 12 else if e = 110 then Some 10
      else if e = 114 then Some 13 else if e = 116 then Some 9 else None)"

definition cons_fst :: "int \<Rightarrow> (js_string \<times> js_string) option \<Rightarrow> (js_string \<times> js_string) option" where
  "cons_fst c r = (case r of None \<Rightarrow> None | Some (s, rest) \<Rightarrow> Some (c # s, rest))"

text \<open>The body of a string literal, after its opening quote: the decoded string and
  what follows the closing quote.\<close>

fun lex_string :: "js_string \<Rightarrow> (js_string \<times> js_string) option" where
  "lex_string [] = None"
| "lex_string [c] = (if c = 34 then Some ([], []) else None)"
| "lex_string (c # e # r) =
     (if c = 34 then Some ([], e # r)
      else if c = 92 then
        (if e = 117 then
           (case r of
              h1 # h2 # h3 # h4 # r' \<Rightarrow>
                (case (hex_val h1, hex_val h2, hex_val h3, hex_val h4) of
                   (Some a, Some b, Some c', Some d) \<Rightarrow>
                     cons_fst (((a * 16 + b) * 16 + c') * 16 + d) (lex_string r')
                 | _ \<Rightarrow> None)
            | _ \<Rightarrow> None)
         else (case unescape e of
                 None \<Rightarrow> None
               | Some u \<Rightarrow> cons_fst u (lex_string r)))
      else if c < 32 then None
      else cons_fst c (lex_string (e # r)))"

definition exp_ok :: "js_string \<Rightarrow> bool" where
  "exp_ok s =
     (case s of
        [] \<Rightarrow> True
      | e # r \<Rightarrow>
          (e = 101 \<or> e = 69) \<and>
          (let ds = (case r of [] \<Rightarrow> [] | sg # r2 \<Rightarrow> if sg = 43 \<or> sg = 45 then r2 else r)
           in ds \<noteq> [] \<and> list_all is_digit ds))"

definition frac_ok :: "js_string \<Rightarrow> bool" where
  "frac_ok s =
     (case s of
        [] \<Rightarrow> True
      | c # r \<Rightarrow>
          if c = 46 then
            (case r of [] \<Rightarrow> False | d # _ \<Rightarrow> is_digit d \<and> exp_ok (dropWhile is_digit r))
          else exp_ok s)"

text \<open>The number grammar: \<open>-? (0 | [1-9][0-9]*) (.[0-9]+)? ([eE][+-]?[0-9]+)?\<close>.\<close>

definition valid_number :: "js_string \<Rightarrow> bool" where
  "valid_number s =
     (let s1 = (case s of [] \<Rightarrow> [] | c # r \<Rightarrow> if c = 45 then r else s)
      in case s1 of
           [] \<Rightarrow> False
         | d # r \<Rightarrow>
             is_digit d \<and> frac_ok (if d = 48 then r else dropWhile is_digit r))"

definition is_num_char :: "int \<Rightarrow> bool" where
  "is_num_char c = (is_digit c \<or> c = 43 \<or> c = 45 \<or> c = 46 \<or> c = 101 \<or> c = 69)"

definition cons_tok :: "token \<Rightarrow> token list option \<Rightarrow> token list option" where
  "cons_tok t r = map_option (Cons t) r"

lemma lex_string_shorter:
  "lex_string cs = Some (s, rest) \<Longrightarrow> length rest < length cs"
proof (induction cs arbitrary: s rest rule: lex_string.induct)
  case 1
  then show ?case by simp
next
  case (2 c)
  then show ?case by (simp split: if_splits)
next
  case (3 c e r)
  then show ?case
    by (fastforce simp: cons_fst_def
          split: if_splits list.splits option.splits prod.splits)
qed

function lex :: "js_string \<Rightarrow> token list option" where
  "lex [] = Some []"
| "lex (c # cs) =
     (if is_json_ws c then lex cs
      else if c = 123 then cons_tok TLBrace (lex cs)
      else if c = 125 then cons_tok TRBrace (lex cs)
      else if c = 91 then cons_tok TLBrack (lex cs)
      else if c = 93 then cons_tok TRBrack (lex cs)
      else if c = 58 then cons_tok TColon (lex cs)
      else if c = 44 then cons_tok TComma (lex cs)
      else if c = 34 then
        (case lex_string cs of
           None \<Rightarrow> None
         | Some (s, rest) \<Rightarrow> cons_tok (TStr s) (lex rest))
      else if c = 45 \<or> is_digit c then
        (if valid_number (c # takeWhile is_num_char cs)
         then cons_tok (TNum (c # takeWhile is_num_char cs)) (lex (dropWhile is_num_char cs))
         else None)
      else if take 4 (c # cs) = jstr ''true'' then cons_tok TTrue (lex (drop 3 cs))
      else if take 5 (c # cs) = jstr ''false'' then cons_tok TFalse (lex (drop 4 cs))
      else if take 4 (c # cs) = jstr ''null'' then cons_tok TNull (lex (drop 3 cs))
      else None)"
  by pat_completeness auto
termination
proof (relation "measure length")
  show "wf (measure length)" by simp
qed (auto dest: lex_string_shorter intro: le_imp_less_Suc length_dropWhile_le)

text \<open>The automaton over tokens.  A frame is an open container: an array with the
  elements read so far, an object with the members read so far, or an object whose last
  key still waits for its value.\<close>

datatype frame =
    FArr "json list"
  | FObj "(js_string \<times> json) list"
  | FObjKey "(js_string \<times> json) list" js_string

datatype mode =
    MValue
  | MValueOrClose
  | MKeyOrClose
  | MKey
  | MColon
  | MNext
  | MDone json

text \<open>A completed value goes to the innermost open container, or is the result.\<close>

fun deliver :: "json \<Rightarrow> frame list \<Rightarrow> (mode \<times> frame list) option" where
  "deliver v [] = Some (MDone v, [])"
| "deliver v (FArr es # st) = Some (MNext, FArr (es @ [v]) # st)"
| "deliver v (FObjKey ms k # st) = Some (MNext, FObj (ms @ [(k, v)]) # st)"
| "deliver v (FObj ms # st) = None"

fun begin_value :: "token \<Rightarrow> frame list \<Rightarrow> (mode \<times> frame list) option" where
  "begin_value TLBrack st = Some (MValueOrClose, FArr [] # st)"
| "begin_value TLBrace st = Some (MKeyOrClose, FObj [] # st)"
| "begin_value (TStr s) st = deliver (JString s) st"
| "begin_value (TNum n) st = deliver (JNumber n) st"
| "begin_value TTrue st = deliver (JBool True) st"
| "begin_value TFalse st = deliver (JBool False) st"
| "begin_value TNull st = deliver JNull st"
| "begin_value _ st = None"

fun begin_key :: "token \<Rightarrow> frame list \<Rightarrow> (mode \<times> frame list) option" where
  "begin_key (TStr k) (FObj ms # st) = Some (MColon, FObjKey ms k # st)"
| "begin_key _ _ = None"

fun close_container :: "token \<Rightarrow> frame list \<Rightarrow> (mode \<times> frame list) option" where
  "close_container TRBrack (FArr es # st) = deliver (JArray es) st"
| "close_container TRBrace (FObj ms # st) = deliver (JObject ms) st"
| "close_container _ _ = None"

fun pstep :: "mode \<Rightarrow> frame list \<Rightarrow> token \<Rightarrow> (mode \<times> frame list) option" where
  "pstep MValue st t = begin_value t st"
| "pstep MValueOrClose st t = (if t = TRBrack then close_container t st else begin_value t st)"
| "pstep MKeyOrClose st t = (if t = TRBrace then close_container t st else begin_key t st)"
| "pstep MKey st t = begin_key t st"
| "pstep MColon st t = (if t = TColon then Some (MValue, st) else None)"
| "pstep MNext st t =
     (if t = TComma then
        (case st of
           FArr es # r \<Rightarrow> Some (MValue, st)
         | FObj ms # r \<Rightarrow> Some (MKey, st)
         | _ \<Rightarrow> None)
      else close_container t st)"
| "pstep (MDone v) st t = None"

fun prun :: "mode \<Rightarrow> frame list \<Rightarrow> token list \<Rightarrow> (mode \<times> frame list) option" where
  "prun m st [] = Some (m, st)"
| "prun m st (t # ts) =
     (case pstep m st t of
        None \<Rightarrow> None
      | Some (m', st') \<Rightarrow> prun m' st' ts)"

definition JSON_parse :: "js_string \<Rightarrow> json option" where
  "JSON_parse s =
     (case lex s of
        None \<Rightarrow> None
      | Some ts \<Rightarrow>
          (case prun MValue [] ts of
             Some (MDone v, []) \<Rightarrow> Some v
           | _ \<Rightarrow> None))"

section \<open>Session-token extraction (claude.ts)\<close>

text \<open>
  Reading \<open>parsed.session_id\<close> and testing \<open>typeof ... === "string"\<close>.  On \<open>null\<close> the
  property access throws a \<open>TypeError\<close>.  On an object the own property named
  \<open>session_id\<close> is read (the last member of that name); on every other value the
  property is undefined.
\<close>

datatype field_read = ReadThrows | StringField js_string | NoStringField

fun session_id_field :: "json \<Rightarrow> field_read" where
  "session_id_field JNull = ReadThrows"
| "session_id_field (JObject ms) =
     (case map_of (rev ms) (jstr ''session_id'') of
        Some (JString s) \<Rightarrow> StringField s
      | _ \<Rightarrow> NoStringField)"
| "session_id_field _ = NoStringField"

text \<open>\<open>stdout.trim().split("\n").filter(Boolean)\<close>: the non-empty lines.\<close>

definition stdout_lines :: "js_string \<Rightarrow> js_string list" where
  "stdout_lines stdout = filter (\<lambda>l. l \<noteq> []) (split_on 10 (trim stdout))"

text \<open>The loop \<open>for (i = lines.length - 2; i >= 0; i--)\<close>, given the lines before the
  last one in reverse order.  A line that fails to parse, or parses to \<open>null\<close>, throws
  inside the inner \<open>try\<close> and is skipped.\<close>

fun scan_back :: "js_string list \<Rightarrow> js_string option" where
  "scan_back [] = None"
| "scan_back (l # ls) =
     (case JSON_parse l of
        None \<Rightarrow> scan_back ls
      | Some obj \<Rightarrow>
          (case session_id_field obj of
             StringField s \<Rightarrow> Some s
           | _ \<Rightarrow> scan_back ls))"

text \<open>\<open>extractSessionId\<close>; \<open>None\<close> is \<open>undefined\<close>.  A throw while the last line is
  handled reaches the outer \<open>catch\<close>, which returns \<open>undefined\<close>.\<close>

definition extractSessionId :: "js_string \<Rightarrow> js_string option" where
  "extractSessionId stdout =
     (let lines = stdout_lines stdout in
      if lines = [] then None
      else
        (case JSON_parse (last lines) of
           None \<Rightarrow> None
         | Some parsed \<Rightarrow>
             (case session_id_field parsed of
                ReadThrows \<Rightarrow> None
              | StringField s \<Rightarrow> Some s
              | NoStringField \<Rightarrow> scan_back (rev (butlast lines)))))"

text \<open>What one line contributes: its \<open>session_id\<close> when the line is valid JSON with a
  string \<open>session_id\<close> field, nothing otherwise.\<close>

definition line_session_id :: "js_string \<Rightarrow> js_string option" where
  "line_session_id l =
     (case JSON_parse l of
        None \<Rightarrow> None
      | Some v \<Rightarrow> (case session_id_field v of StringField s \<Rightarrow> Some s | _ \<Rightarrow> None))"

definition has_string_session_id :: "js_string \<Rightarrow> bool" where
  "has_string_session_id l = (line_session_id l \<noteq> None)"

lemma scan_back_none:
  "list_all (\<lambda>l. \<not> has_string_session_id l) ls \<Longrightarrow> scan_back ls = None"
  by (induction ls)
     (auto simp: has_string_session_id_def line_session_id_def
           split: option.splits field_read.splits)

lemma scan_back_skips:
  "list_all (\<lambda>l. \<not> has_string_session_id l) ls \<Longrightarrow> scan_back (ls @ rest) = scan_back rest"
  by (induction ls)
     (auto simp: has_string_session_id_def line_session_id_def
           split: option.splits field_read.splits)

lemma scan_back_hit:
  "line_session_id l = Some s \<Longrightarrow> scan_back (l # ls) = Some s"
  by (auto simp: line_session_id_def split: option.splits field_read.splits)

subsection \<open>Claims about session-token extraction\<close>

text \<open>
  C8.  On the stdout made of the three lines \<open>{"a":1}\<close>, \<open>{"session_id":"s1"}\<close> and
  \<open>{"b":2}\<close>, \<open>extractSessionId\<close> returns \<open>"s1"\<close>: the last line has no such field, and
  the scan backward from the line before it finds one.  And for every stdout none of
  whose non-empty lines is valid JSON with a string \<open>session_id\<close> field, it returns
  \<open>undefined\<close>.
\<close>

theorem extractSessionId_backward_scan:
  "extractSessionId
     (jstr ''{\"a\":1}'' @ [10] @ jstr ''{\"session_id\":\"s1\"}'' @ [10] @ jstr ''{\"b\":2}'')
     = Some (jstr ''s1'') \<and>
   (list_all (\<lambda>l. \<not> has_string_session_id l) (stdout_lines stdout) \<longrightarrow>
      extractSessionId stdout = None)"
proof (intro conjI impI)
  show "extractSessionId
     (jstr ''{\"a\":1}'' @ [10] @ jstr ''{\"session_id\":\"s1\"}'' @ [10] @ jstr ''{\"b\":2}'')
     = Some (jstr ''s1'')"
    by code_simp
next
  assume none: "list_all (\<lambda>l. \<not> has_string_session_id l) (stdout_lines stdout)"
  show "extractSessionId stdout = None"
  proof (cases "stdout_lines stdout = []")
    case True
    then show ?thesis by (simp add: extractSessionId_def)
  next
    case False
    then have "last (stdout_lines stdout) \<in> set (stdout_lines stdout)" by simp
    with none have lastl: "\<not> has_string_session_id (last (stdout_lines stdout))"
      by (simp add: list_all_iff)
    have "set (rev (butlast (stdout_lines stdout))) \<subseteq> set (stdout_lines stdout)"
      by (auto dest: in_set_butlastD)
    with none have "list_all (\<lambda>l. \<not> has_string_session_id l) (rev (butlast (stdout_lines stdout)))"
      unfolding list_all_iff by blast
    then have "scan_back (rev (butlast (stdout_lines stdout))) = None"
      by (rule scan_back_none)
    with False lastl show ?thesis
      by (auto simp: extractSessionId_def Let_def has_string_session_id_def line_session_id_def
               split: option.splits field_read.splits)
  qed
qed

theorem extractSessionId_backward_scan_witness:
  "list_all (\<lambda>l. \<not> has_string_session_id l)
     (stdout_lines (jstr ''{\"a\":1}'' @ [10] @ jstr ''{\"b\":2}'')) \<and>
   extractSessionId (jstr ''{\"a\":1}'' @ [10] @ jstr ''{\"b\":2}'') = None"
proof -
  have h: "list_all (\<lambda>l. \<not> has_string_session_id l)
     (stdout_lines (jstr ''{\"a\":1}'' @ [10] @ jstr ''{\"b\":2}''))"
    by code_simp
  with extractSessionId_backward_scan [of "jstr ''{\"a\":1}'' @ [10] @ jstr ''{\"b\":2}''"]
  show ?thesis by blast
qed

text \<open>
  C4, the claim as stated: with a malformed last line and an earlier valid line that
  carries a string \<open>session_id\<close>, extraction would return that \<open>session_id\<close>.  It does
  not: \<open>JSON.parse\<close> of the last line throws before the loop over the earlier lines is
  reached, and the outer \<open>catch\<close> returns \<open>undefined\<close>.
\<close>

theorem extractSessionId_malformed_last_counterexample:
  "JSON_parse (last (stdout_lines (jstr ''{\"session_id\":\"s1\"}'' @ [10] @ jstr ''{bad''))) = None \<and>
   line_session_id (hd (stdout_lines (jstr ''{\"session_id\":\"s1\"}'' @ [10] @ jstr ''{bad'')))
     = Some (jstr ''s1'') \<and>
   extractSessionId (jstr ''{\"session_id\":\"s1\"}'' @ [10] @ jstr ''{bad'') = None"
  by code_simp

text \<open>
  C4, amended.  When the last non-empty line is malformed JSON, extraction returns
  \<open>undefined\<close>, whatever the earlier lines hold; so it does when the last line is the
  JSON value \<open>null\<close>.  When the last line parses to a value with a string \<open>session_id\<close>,
  that \<open>session_id\<close> is returned, whatever the earlier lines hold.  The earlier lines
  decide the result only when the last line parses to a value without a string
  \<open>session_id\<close> (and other than \<open>null\<close>): then the \<open>session_id\<close> of the latest earlier
  line that has one is returned, the lines after it, malformed ones among them, being
  skipped, and \<open>undefined\<close> is returned when no earlier line has one.
\<close>

theorem extractSessionId_malformed_last:
  "(stdout_lines stdout \<noteq> [] \<and> JSON_parse (last (stdout_lines stdout)) = None \<longrightarrow>
      extractSessionId stdout = None) \<and>
   (JSON_parse (last (stdout_lines stdout')) = Some v \<and> session_id_field v = NoStringField \<and>
    butlast (stdout_lines stdout') = pre @ l # post \<and> line_session_id l = Some s \<and>
    list_all (\<lambda>p. \<not> has_string_session_id p) post \<longrightarrow>
      extractSessionId stdout' = Some s) \<and>
   (JSON_parse (last (stdout_lines out_null)) = Some JNull \<longrightarrow>
      extractSessionId out_null = None) \<and>
   (stdout_lines out_str \<noteq> [] \<and> JSON_parse (last (stdout_lines out_str)) = Some v_str \<and>
    session_id_field v_str = StringField s_str \<longrightarrow>
      extractSessionId out_str = Some s_str) \<and>
   (JSON_parse (last (stdout_lines out_none)) = Some v_none \<and>
    session_id_field v_none = NoStringField \<and>
    list_all (\<lambda>p. \<not> has_string_session_id p) (butlast (stdout_lines out_none)) \<longrightarrow>
      extractSessionId out_none = None)"
proof (intro conjI impI)
  assume "stdout_lines stdout \<noteq> [] \<and> JSON_parse (last (stdout_lines stdout)) = None"
  then show "extractSessionId stdout = None"
    by (simp add: extractSessionId_def Let_def)
next
  assume "JSON_parse (last (stdout_lines out_null)) = Some JNull"
  then show "extractSessionId out_null = None"
    by (simp add: extractSessionId_def Let_def)
next
  assume "stdout_lines out_str \<noteq> [] \<and> JSON_parse (last (stdout_lines out_str)) = Some v_str \<and>
    session_id_field v_str = StringField s_str"
  then show "extractSessionId out_str = Some s_str"
    by (simp add: extractSessionId_def Let_def)
next
  assume h: "JSON_parse (last (stdout_lines out_none)) = Some v_none \<and>
    session_id_field v_none = NoStringField \<and>
    list_all (\<lambda>p. \<not> has_string_session_id p) (butlast (stdout_lines out_none))"
  then have "list_all (\<lambda>p. \<not> has_string_session_id p) (rev (butlast (stdout_lines out_none)))"
    by simp
  then have "scan_back (rev (butlast (stdout_lines out_none))) = None"
    by (rule scan_back_none)
  with h show "extractSessionId out_none = None"
    by (simp add: extractSessionId_def Let_def)
next
  assume h: "JSON_parse (last (stdout_lines stdout')) = Some v \<and>
    session_id_field v = NoStringField \<and>
    butlast (stdout_lines stdout') = pre @ l # post \<and> line_session_id l = Some s \<and>
    list_all (\<lambda>p. \<not> has_string_session_id p) post"
  then have ne: "stdout_lines stdout' \<noteq> []" by auto
  from h have "rev (butlast (stdout_lines stdout')) = rev post @ l # rev pre" by simp
  moreover from h have "list_all (\<lambda>p. \<not> has_string_session_id p) (rev post)" by simp
  ultimately have "scan_back (rev (butlast (stdout_lines stdout'))) = scan_back (l # rev pre)"
    by (simp add: scan_back_skips)
  also have "\<dots> = Some s"
  proof (rule scan_back_hit)
    from h show "line_session_id l = Some s" by simp
  qed
  finally show "extractSessionId stdout' = Some s"
    using h ne by (simp add: extractSessionId_def Let_def)
qed

theorem extractSessionId_malformed_last_witness:
  "(stdout_lines (jstr ''{\"session_id\":\"s1\"}'' @ [10] @ jstr ''{bad'') \<noteq> [] \<and>
    JSON_parse (last (stdout_lines (jstr ''{\"session_id\":\"s1\"}'' @ [10] @ jstr ''{bad''))) = None \<and>
    extractSessionId (jstr ''{\"session_id\":\"s1\"}'' @ [10] @ jstr ''{bad'') = None) \<and>
   (JSON_parse (last (stdout_lines
        (jstr ''{\"session_id\":\"s1\"}'' @ [10] @ jstr ''{bad'' @ [10] @ jstr ''{\"b\":2}'')))
      = Some (JObject [(jstr ''b'', JNumber (jstr ''2''))]) \<and>
    butlast (stdout_lines
        (jstr ''{\"session_id\":\"s1\"}'' @ [10] @ jstr ''{bad'' @ [10] @ jstr ''{\"b\":2}''))
      = [] @ jstr ''{\"session_id\":\"s1\"}'' # [jstr ''{bad''] \<and>
    line_session_id (jstr ''{\"session_id\":\"s1\"}'') = Some (jstr ''s1'') \<and>
    list_all (\<lambda>p. \<not> has_string_session_id p) [jstr ''{bad''] \<and>
    extractSessionId
        (jstr ''{\"session_id\":\"s1\"}'' @ [10] @ jstr ''{bad'' @ [10] @ jstr ''{\"b\":2}'')
      = Some (jstr ''s1'')) \<and>
   (JSON_parse (last (stdout_lines (jstr ''{\"session_id\":\"s1\"}'' @ [10] @ jstr ''null'')))
      = Some JNull \<and>
    extractSessionId (jstr ''{\"session_id\":\"s1\"}'' @ [10] @ jstr ''null'') = None) \<and>
   (stdout_lines (jstr ''{\"session_id\":\"s1\"}'' @ [10] @ jstr ''{\"session_id\":\"s2\"}'')
      \<noteq> [] \<and>
    JSON_parse (last (stdout_lines
        (jstr ''{\"session_id\":\"s1\"}'' @ [10] @ jstr ''{\"session_id\":\"s2\"}'')))
      = Some (JObject [(jstr ''session_id'', JString (jstr ''s2''))]) \<and>
    session_id_field (JObject [(jstr ''session_id'', JString (jstr ''s2''))])
      = StringField (jstr ''s2'') \<and>
    extractSessionId (jstr ''{\"session_id\":\"s1\"}'' @ [10] @ jstr ''{\"session_id\":\"s2\"}'')
      = Some (jstr ''s2'')) \<and>
   (JSON_parse (last (stdout_lines (jstr ''{bad'' @ [10] @ jstr ''{\"b\":2}'')))
      = Some (JObject [(jstr ''b'', JNumber (jstr ''2''))]) \<and>
    list_all (\<lambda>p. \<not> has_string_session_id p)
      (butlast (stdout_lines (jstr ''{bad'' @ [10] @ jstr ''{\"b\":2}''))) \<and>
    extractSessionId (jstr ''{bad'' @ [10] @ jstr ''{\"b\":2}'') = None)"
proof -
  have c1: "JSON_parse (last (stdout_lines
        (jstr ''{\"session_id\":\"s1\"}'' @ [10] @ jstr ''null''))) = Some JNull"
    by code_simp
  have d1: "stdout_lines
        (jstr ''{\"session_id\":\"s1\"}'' @ [10] @ jstr ''{\"session_id\":\"s2\"}'') \<noteq> []"
    by code_simp
  have d2: "JSON_parse (last (stdout_lines
        (jstr ''{\"session_id\":\"s1\"}'' @ [10] @ jstr ''{\"session_id\":\"s2\"}'')))
      = Some (JObject [(jstr ''session_id'', JString (jstr ''s2''))])"
    by code_simp
  have d3: "session_id_field (JObject [(jstr ''session_id'', JString (jstr ''s2''))])
      = StringField (jstr ''s2'')"
    by code_simp
  have e1: "JSON_parse (last (stdout_lines (jstr ''{bad'' @ [10] @ jstr ''{\"b\":2}'')))
      = Some (JObject [(jstr ''b'', JNumber (jstr ''2''))])"
    by code_simp
  have e2: "list_all (\<lambda>p. \<not> has_string_session_id p)
      (butlast (stdout_lines (jstr ''{bad'' @ [10] @ jstr ''{\"b\":2}'')))"
    by code_simp
  have a1: "stdout_lines (jstr ''{\"session_id\":\"s1\"}'' @ [10] @ jstr ''{bad'') \<noteq> []"
    by code_simp
  have a2: "JSON_parse (last (stdout_lines
      (jstr ''{\"session_id\":\"s1\"}'' @ [10] @ jstr ''{bad''))) = None"
    by code_simp
  have b1: "JSON_parse (last (stdout_lines
        (jstr ''{\"session_id\":\"s1\"}'' @ [10] @ jstr ''{bad'' @ [10] @ jstr ''{\"b\":2}'')))
      = Some (JObject [(jstr ''b'', JNumber (jstr ''2''))])"
    by code_simp
  have b2: "session_id_field (JObject [(jstr ''b'', JNumber (jstr ''2''))]) = NoStringField"
    by code_simp
  have b3: "butlast (stdout_lines
        (jstr ''{\"session_id\":\"s1\"}'' @ [10] @ jstr ''{bad'' @ [10] @ jstr ''{\"b\":2}''))
      = [] @ jstr ''{\"session_id\":\"s1\"}'' # [jstr ''{bad'']"
    by code_simp
  have b4: "line_session_id (jstr ''{\"session_id\":\"s1\"}'') = Some (jstr ''s1'')"
    by code_simp
  have b5: "list_all (\<lambda>p. \<not> has_string_session_id p) [jstr ''{bad'']"
    by code_simp
  from extractSessionId_malformed_last
    [where stdout = "jstr ''{\"session_id\":\"s1\"}'' @ [10] @ jstr ''{bad''"
       and stdout' = "jstr ''{\"session_id\":\"s1\"}'' @ [10] @ jstr ''{bad'' @ [10] @
                      jstr ''{\"b\":2}''"
       and v = "JObject [(jstr ''b'', JNumber (jstr ''2''))]"
       and pre = "[]" and l = "jstr ''{\"session_id\":\"s1\"}''" and post = "[jstr ''{bad'']"
       and s = "jstr ''s1''"
       and out_null = "jstr ''{\"session_id\":\"s1\"}'' @ [10] @ jstr ''null''"
       and out_str = "jstr ''{\"session_id\":\"s1\"}'' @ [10] @ jstr ''{\"session_id\":\"s2\"}''"
       and v_str = "JObject [(jstr ''session_id'', JString (jstr ''s2''))]"
       and s_str = "jstr ''s2''"
       and out_none = "jstr ''{bad'' @ [10] @ jstr ''{\"b\":2}''"
       and v_none = "JObject [(jstr ''b'', JNumber (jstr ''2''))]"]
    a1 a2 b1 b2 b3 b4 b5 c1 d1 d2 d3 e1 e2
  show ?thesis by blast
qed

section \<open>Decision-point extraction (task-handler.ts)\<close>

text \<open>
  The regular expressions used here are sequences of quantified one-unit atoms, so the
  backtracking matcher of the language is modelled for that fragment: a pattern is a list
  of items, each an atom with a quantifier and a flag saying whether it is a capture group.
  Without the \<open>s\<close> and \<open>u\<close> flags \<open>.\<close> matches one code unit that is not a line terminator.
\<close>

datatype atom = Lit int | Space | Dot

datatype quant = Once | Star | Plus | StarLazy | PlusLazy

type_synonym item = "atom \<times> quant \<times> bool"

fun atom_matches :: "atom \<Rightarrow> int \<Rightarrow> bool" where
  "atom_matches (Lit a) c = (c = a)"
| "atom_matches Space c = is_js_space c"
| "atom_matches Dot c = (\<not> is_line_terminator c)"

text \<open>A match is the text each item consumed, in order, and the rest of the input.\<close>

type_synonym match_result = "(js_string list \<times> js_string) option"

definition push_seg :: "js_string \<Rightarrow> match_result \<Rightarrow> match_result" where
  "push_seg seg r = (case r of None \<Rightarrow> None | Some (segs, rest) \<Rightarrow> Some (seg # segs, rest))"

definition extend_seg :: "int \<Rightarrow> match_result \<Rightarrow> match_result" where
  "extend_seg c r =
     (case r of
        Some (seg # segs, rest) \<Rightarrow> Some ((c # seg) # segs, rest)
      | _ \<Rightarrow> None)"

definition or_else :: "match_result \<Rightarrow> match_result \<Rightarrow> match_result" where
  "or_else r alt = (case r of None \<Rightarrow> alt | Some x \<Rightarrow> Some x)"

text \<open>
  Matching at the start of the input, in the priority order of the backtracking
  semantics: a greedy quantifier first tries one more repetition and falls back to the
  rest of the pattern, a lazy one first tries the rest of the pattern.
\<close>

fun match_items :: "item list \<Rightarrow> js_string \<Rightarrow> match_result" where
  "match_items [] s = Some ([], s)"
| "match_items ((a, Once, g) # its) [] = None"
| "match_items ((a, Once, g) # its) (c # cs) =
     (if atom_matches a c then push_seg [c] (match_items its cs) else None)"
| "match_items ((a, Star, g) # its) [] = push_seg [] (match_items its [])"
| "match_items ((a, Star, g) # its) (c # cs) =
     (if atom_matches a c
      then or_else (extend_seg c (match_items ((a, Star, g) # its) cs))
                   (push_seg [] (match_items its (c # cs)))
      else push_seg [] (match_items its (c # cs)))"
| "match_items ((a, Plus, g) # its) [] = None"
| "match_items ((a, Plus, g) # its) (c # cs) =
     (if atom_matches a c then extend_seg c (match_items ((a, Star, g) # its) cs) else None)"
| "match_items ((a, StarLazy, g) # its) [] = push_seg [] (match_items its [])"
| "match_items ((a, StarLazy, g) # its) (c # cs) =
     or_else (push_seg [] (match_items its (c # cs)))
             (if atom_matches a c
              then extend_seg c (match_items ((a, StarLazy, g) # its) cs)
              else None)"
| "match_items ((a, PlusLazy, g) # its) [] = None"
| "match_items ((a, PlusLazy, g) # its) (c # cs) =
     (if atom_matches a c then extend_seg c (match_items ((a, StarLazy, g) # its) cs) else None)"

text \<open>The leftmost match: \<open>exec\<close> tries every start position from \<open>lastIndex\<close> on.\<close>

fun search :: "item list \<Rightarrow> js_string \<Rightarrow> match_result" where
  "search its [] = match_items its []"
| "search its (c # cs) = or_else (match_items its (c # cs)) (search its cs)"

text \<open>The texts of the capture groups: \<open>match[1]\<close>, \<open>match[2]\<close>, ...\<close>

definition captures :: "item list \<Rightarrow> js_string list \<Rightarrow> js_string list" where
  "captures its segs = map snd (filter (\<lambda>(it, seg). snd (snd it)) (zip its segs))"

text \<open>\<open>/\[DECISION_POINT\]\s*(.+?)\s*\|\s*(.+?)\s*\|\s*(.+)/g\<close>\<close>

definition decision_pattern :: "item list" where
  "decision_pattern =
     map (\<lambda>c. (Lit c, Once, False)) (jstr ''[DECISION_POINT]'') @
     [(Space, Star, False), (Dot, PlusLazy, True), (Space, Star, False), (Lit 124, Once, False),
      (Space, Star, False), (Dot, PlusLazy, True), (Space, Star, False), (Lit 124, Once, False),
      (Space, Star, False), (Dot, Plus, True)]"

record decision_point =
  description :: js_string
  chosen :: js_string
  rejected :: js_string

text \<open>The least number of code units a pattern consumes.\<close>

fun min_len :: "item list \<Rightarrow> nat" where
  "min_len [] = 0"
| "min_len ((a, q, g) # its) = (if q = Star \<or> q = StarLazy then 0 else 1) + min_len its"

lemma match_items_consumes:
  "match_items its s = Some (segs, rest) \<Longrightarrow> length rest + min_len its \<le> length s"
proof (induction its s arbitrary: segs rest rule: match_items.induct)
  case (5 a g its c cs)
  then show ?case
    by (fastforce simp: push_seg_def extend_seg_def or_else_def
          split: if_splits option.splits list.splits prod.splits)
next
  case (9 a g its c cs)
  then show ?case
    by (fastforce simp: push_seg_def extend_seg_def or_else_def
          split: if_splits option.splits list.splits prod.splits)
qed (fastforce simp: push_seg_def extend_seg_def or_else_def
          split: if_splits option.splits list.splits prod.splits)+

lemma search_consumes:
  "search its s = Some (segs, rest) \<Longrightarrow> length rest + min_len its \<le> length s"
proof (induction s)
  case Nil
  then show ?case using match_items_consumes [of its "[]" segs rest] by simp
next
  case (Cons c cs)
  show ?case
  proof (cases "match_items its (c # cs)")
    case None
    with Cons show ?thesis by (simp add: or_else_def)
  next
    case (Some r)
    with Cons.prems have "match_items its (c # cs) = Some (segs, rest)"
      by (simp add: or_else_def)
    then show ?thesis by (rule match_items_consumes)
  qed
qed

lemma min_len_decision_pattern: "min_len decision_pattern = 21"
  by (simp add: decision_pattern_def jstr_def)

text \<open>
  \<open>extractDecisionPoints\<close>: the loop \<open>while ((match = pattern.exec(output)) !== null)\<close>.
  With the \<open>g\<close> flag each search starts where the previous match ended.
\<close>

function extractDecisionPoints :: "js_string \<Rightarrow> decision_point list" where
  "extractDecisionPoints output =
     (case search decision_pattern output of
        None \<Rightarrow> []
      | Some (segs, rest) \<Rightarrow>
          \<lparr>description = captures decision_pattern segs ! 0,
           chosen = captures decision_pattern segs ! 1,
           rejected = captures decision_pattern segs ! 2\<rparr>
          # extractDecisionPoints rest)"
  by pat_completeness auto
termination
proof (relation "measure length")
  show "wf (measure length)" by simp
next
  fix out :: js_string and x2 segs rest
  assume "search decision_pattern out = Some x2" and "(segs, rest) = x2"
  then have "search decision_pattern out = Some (segs, rest)" by simp
  from search_consumes [OF this] show "(rest, out) \<in> measure length"
    by (simp add: min_len_decision_pattern)
qed

text \<open>Every match of the pattern has its three groups, so \<open>match[1]\<close>, \<open>match[2]\<close> and
  \<open>match[3]\<close> are in range.\<close>

lemma match_items_length:
  "match_items its s = Some (segs, rest) \<Longrightarrow> length segs = length its"
proof (induction its s arbitrary: segs rest rule: match_items.induct)
  case (5 a g its c cs)
  then show ?case
    by (fastforce simp: push_seg_def extend_seg_def or_else_def
          split: if_splits option.splits list.splits prod.splits)
next
  case (9 a g its c cs)
  then show ?case
    by (fastforce simp: push_seg_def extend_seg_def or_else_def
          split: if_splits option.splits list.splits prod.splits)
qed (fastforce simp: push_seg_def extend_seg_def or_else_def
          split: if_splits option.splits list.splits prod.splits)+

lemma search_length:
  "search its s = Some (segs, rest) \<Longrightarrow> length segs = length its"
  by (induction s)
     (auto simp: or_else_def dest: match_items_length split: option.splits)

lemma captures_length:
  "length segs = length its \<Longrightarrow>
   length (captures its segs) = length (filter (\<lambda>it. snd (snd it)) its)"
  unfolding captures_def
  by (induction its segs rule: list_induct2') auto

lemma decision_pattern_groups:
  "search decision_pattern s = Some (segs, rest) \<Longrightarrow>
   length (captures decision_pattern segs) = 3"
proof -
  assume "search decision_pattern s = Some (segs, rest)"
  then have "length segs = length decision_pattern" by (rule search_length)
  then have "length (captures decision_pattern segs)
    = length (filter (\<lambda>it. snd (snd it)) decision_pattern)"
    by (rule captures_length)
  also have "\<dots> = 3" by (simp add: decision_pattern_def jstr_def)
  finally show ?thesis .
qed

subsection \<open>Claim about decision-point extraction\<close>

text \<open>
  C7.  On the input \<open>"[DECISION_POINT] use X | X | Y\nnoise\n[DECISION_POINT] cache it | yes | no"\<close>
  \<open>extractDecisionPoints\<close> yields exactly two records, \<open>(use X, X, Y)\<close> and
  \<open>(cache it, yes, no)\<close>; and these are the fields one gets from each marked line by
  splitting what follows the marker on \<open>|\<close> and trimming each part.
\<close>

theorem extractDecisionPoints_example:
  "extractDecisionPoints
     (jstr ''[DECISION_POINT] use X | X | Y'' @ [10] @ jstr ''noise'' @ [10] @
      jstr ''[DECISION_POINT] cache it | yes | no'')
   = [\<lparr>description = jstr ''use X'', chosen = jstr ''X'', rejected = jstr ''Y''\<rparr>,
      \<lparr>description = jstr ''cache it'', chosen = jstr ''yes'', rejected = jstr ''no''\<rparr>] \<and>
   map (\<lambda>p. [description p, chosen p, rejected p])
     (extractDecisionPoints
        (jstr ''[DECISION_POINT] use X | X | Y'' @ [10] @ jstr ''noise'' @ [10] @
         jstr ''[DECISION_POINT] cache it | yes | no''))
   = map (\<lambda>l. map trim (split_on 124 (drop 16 l)))
       (filter (\<lambda>l. take 16 l = jstr ''[DECISION_POINT]'')
          (split_on 10
             (jstr ''[DECISION_POINT] use X | X | Y'' @ [10] @ jstr ''noise'' @ [10] @
              jstr ''[DECISION_POINT] cache it | yes | no'')))"
  by code_simp

section \<open>WorkerPool (worker-pool.ts)\<close>

text \<open>
  The registry \<open>tasks\<close> is a \<open>Map\<close> from task id to task.  It is kept as an association
  list in insertion order: \<open>Map.set\<close> is \<open>AList.update\<close> (replace in place, or append),
  \<open>Map.get\<close> is \<open>map_of\<close>.  The handler passed to \<open>submit\<close> is a closure; the pool keeps
  in \<open>invoked\<close> the handlers it has called whose promise has not settled yet.
  \<open>maxConcurrency\<close> is a number: an integer, or \<open>NaN\<close> (what \<open>parseInt\<close> gives for a
  setting that is not a number), with which every comparison is false.  \<open>aborted\<close> is
  the state of the signal of the task's \<open>AbortController\<close>.
\<close>

datatype TaskStatus = Pending | InProgress | Completed | Failed

datatype task_type = Issue | Review

datatype js_number = NaN | Num int

record WorkerTask =
  taskId :: js_string
  ttype :: task_type
  issueNumber :: int
  prNumber :: "int option"
  status :: TaskStatus
  aborted :: bool

record 'h WorkerPool =
  tasks :: "(js_string \<times> WorkerTask) list"
  maxConcurrency :: js_number
  invoked :: "(js_string \<times> 'h) list"

definition newWorkerPool :: "js_number \<Rightarrow> 'h WorkerPool" where
  "newWorkerPool m = \<lparr>tasks = [], maxConcurrency = m, invoked = []\<rparr>"

fun less_number :: "nat \<Rightarrow> js_number \<Rightarrow> bool" where
  "less_number n NaN = False"
| "less_number n (Num m) = (int n < m)"

definition activeCount :: "'h WorkerPool \<Rightarrow> nat" where
  "activeCount p = length (filter (\<lambda>t. status t = InProgress) (map snd (tasks p)))"

definition canAccept :: "'h WorkerPool \<Rightarrow> bool" where
  "canAccept p = less_number (activeCount p) (maxConcurrency p)"

definition has :: "'h WorkerPool \<Rightarrow> js_string \<Rightarrow> bool" where
  "has p k =
     (case map_of (tasks p) k of
        None \<Rightarrow> False
      | Some task \<Rightarrow> status task = InProgress \<or> status task = Pending)"

definition submit ::
  "'h WorkerPool \<Rightarrow> js_string \<Rightarrow> task_type \<Rightarrow> int \<Rightarrow> 'h \<Rightarrow> int option \<Rightarrow> 'h WorkerPool" where
  "submit p k ty n handler pr =
     (if \<not> canAccept p then p
      else if has p k then p
      else p\<lparr>tasks :=
               AList.update k
                 \<lparr>taskId = k, ttype = ty, issueNumber = n, prNumber = pr,
                  status = InProgress, aborted = False\<rparr>
                 (tasks p),
             invoked := invoked p @ [(k, handler)]\<rparr>)"

definition updateStatus :: "'h WorkerPool \<Rightarrow> js_string \<Rightarrow> TaskStatus \<Rightarrow> 'h WorkerPool" where
  "updateStatus p k st = p\<lparr>tasks := AList.map_entry k (\<lambda>t. t\<lparr>status := st\<rparr>) (tasks p)\<rparr>"

definition cancelAll :: "'h WorkerPool \<Rightarrow> 'h WorkerPool" where
  "cancelAll p =
     p\<lparr>tasks :=
         map (\<lambda>(k, t). if status t = InProgress
                        then (k, t\<lparr>aborted := True, status := Failed\<rparr>)
                        else (k, t))
             (tasks p)\<rparr>"

text \<open>
  The promise of an invoked handler settles: \<open>.then\<close> marks the task \<open>completed\<close>,
  \<open>.catch\<close> marks it \<open>failed\<close>.  Only a handler that was invoked can settle.
\<close>

fun remove_invoked :: "js_string \<Rightarrow> (js_string \<times> 'h) list \<Rightarrow> (js_string \<times> 'h) list" where
  "remove_invoked k [] = []"
| "remove_invoked k (x # xs) = (if fst x = k then xs else x # remove_invoked k xs)"

definition settle :: "'h WorkerPool \<Rightarrow> js_string \<Rightarrow> bool \<Rightarrow> 'h WorkerPool" where
  "settle p k ok =
     (if k \<in> set (map fst (invoked p))
      then updateStatus (p\<lparr>invoked := remove_invoked k (invoked p)\<rparr>) k
             (if ok then Completed else Failed)
      else p)"

text \<open>The operations on a pool, and the states a pool reaches from its construction.\<close>

datatype 'h pool_op =
    Submit js_string task_type int 'h "int option"
  | Settle js_string bool
  | CancelAll

fun pool_step :: "'h WorkerPool \<Rightarrow> 'h pool_op \<Rightarrow> 'h WorkerPool" where
  "pool_step p (Submit k ty n handler pr) = submit p k ty n handler pr"
| "pool_step p (Settle k ok) = settle p k ok"
| "pool_step p CancelAll = cancelAll p"

definition run_pool :: "js_number \<Rightarrow> 'h pool_op list \<Rightarrow> 'h WorkerPool" where
  "run_pool m ops = foldl pool_step (newWorkerPool m) ops"

text \<open>What holds of every reachable registry: keys are distinct, a task is stored under
  its own id, and no task is \<open>pending\<close>.\<close>

definition registry_ok :: "(js_string \<times> WorkerTask) list \<Rightarrow> bool" where
  "registry_ok al =
     (distinct (map fst al) \<and> list_all (\<lambda>(k, t). taskId t = k \<and> status t \<noteq> Pending) al)"

lemma list_all_update:
  "list_all P al \<Longrightarrow> P (k, v) \<Longrightarrow> list_all P (AList.update k v al)"
  by (induction al) auto

lemma map_fst_map_entry: "map fst (AList.map_entry k f al) = map fst al"
  by (induction al) auto

lemma list_all_map_entry:
  "list_all P al \<Longrightarrow> (\<And>v. P (k, v) \<Longrightarrow> P (k, f v)) \<Longrightarrow> list_all P (AList.map_entry k f al)"
  by (induction al) auto

lemma registry_ok_submit: "registry_ok (tasks p) \<Longrightarrow> registry_ok (tasks (submit p k ty n h pr))"
  by (simp add: submit_def registry_ok_def distinct_update list_all_update)

lemma registry_ok_updateStatus:
  "registry_ok (tasks p) \<Longrightarrow> st \<noteq> Pending \<Longrightarrow> registry_ok (tasks (updateStatus p k st))"
proof -
  assume ok: "registry_ok (tasks p)" and st: "st \<noteq> Pending"
  let ?P = "\<lambda>(k, t). taskId t = k \<and> status t \<noteq> Pending"
  from ok have "list_all ?P (tasks p)" by (simp add: registry_ok_def)
  then have "list_all ?P (AList.map_entry k (\<lambda>t. t\<lparr>status := st\<rparr>) (tasks p))"
    by (rule list_all_map_entry) (use st in simp)
  with ok show ?thesis
    by (simp add: updateStatus_def registry_ok_def map_fst_map_entry)
qed

lemma registry_ok_settle: "registry_ok (tasks p) \<Longrightarrow> registry_ok (tasks (settle p k ok))"
  by (simp add: settle_def registry_ok_updateStatus)

lemma registry_ok_cancelAll: "registry_ok (tasks p) \<Longrightarrow> registry_ok (tasks (cancelAll p))"
proof -
  assume ok: "registry_ok (tasks p)"
  let ?f = "\<lambda>(k, t). if status t = InProgress
                        then (k, t\<lparr>aborted := True, status := Failed\<rparr>) else (k, t)"
  have keys: "map fst (map ?f al) = map fst al" for al :: "(js_string \<times> WorkerTask) list"
    by (induction al) (auto split: prod.splits)
  have all: "list_all (\<lambda>(k, t). taskId t = k \<and> status t \<noteq> Pending) al \<Longrightarrow>
        list_all (\<lambda>(k, t). taskId t = k \<and> status t \<noteq> Pending) (map ?f al)"
    for al :: "(js_string \<times> WorkerTask) list"
    by (induction al) (auto split: prod.splits)
  from ok show ?thesis
    unfolding registry_ok_def cancelAll_def by (simp add: keys all del: map_map)
qed

lemma registry_ok_step: "registry_ok (tasks p) \<Longrightarrow> registry_ok (tasks (pool_step p op))"
  by (cases op) (simp_all add: registry_ok_submit registry_ok_settle registry_ok_cancelAll)

lemma registry_ok_foldl:
  "registry_ok (tasks p) \<Longrightarrow> registry_ok (tasks (foldl pool_step p ops))"
  by (induction ops arbitrary: p) (simp_all add: registry_ok_step)

lemma registry_ok_reachable: "registry_ok (tasks (run_pool m ops))"
  unfolding run_pool_def
  by (rule registry_ok_foldl) (simp add: newWorkerPool_def registry_ok_def)

text \<open>The tasks of a pool with a given id that are \<open>pending\<close> or \<open>in-progress\<close>.\<close>

definition active_with_key :: "'h WorkerPool \<Rightarrow> js_string \<Rightarrow> WorkerTask list" where
  "active_with_key p k =
     filter (\<lambda>t. taskId t = k \<and> (status t = Pending \<or> status t = InProgress))
       (map snd (tasks p))"

text \<open>The statuses of the registry's entries, in order.\<close>

definition statuses :: "'h WorkerPool \<Rightarrow> TaskStatus list" where
  "statuses p = map (\<lambda>(k, t). status t) (tasks p)"

lemma no_task_without_key:
  "list_all (\<lambda>(k', t). taskId t = k' \<and> Q k' t) al \<Longrightarrow> k \<notin> set (map fst al) \<Longrightarrow>
   filter (\<lambda>t. taskId t = k \<and> R t) (map snd al) = []"
  by (induction al) auto

lemma one_task_per_key:
  "registry_ok al \<Longrightarrow> length (filter (\<lambda>t. taskId t = k \<and> R t) (map snd al)) \<le> 1"
proof (induction al)
  case Nil
  then show ?case by simp
next
  case (Cons x al)
  obtain k' t where x: "x = (k', t)" by (cases x)
  from Cons.prems have rest: "registry_ok al" and fresh: "k' \<notin> set (map fst al)"
    and own: "taskId t = k'"
    and all: "list_all (\<lambda>(k', t). taskId t = k' \<and> status t \<noteq> Pending) al"
    by (auto simp: registry_ok_def x)
  show ?case
  proof (cases "k' = k")
    case True
    with fresh have "k \<notin> set (map fst al)" by simp
    with all have "filter (\<lambda>t. taskId t = k \<and> R t) (map snd al) = []"
      by (rule no_task_without_key)
    then show ?thesis by (simp add: x)
  next
    case False
    with own Cons.IH [OF rest] show ?thesis by (simp add: x)
  qed
qed

lemma statuses_update:
  "set (map (\<lambda>(k, t). status t) (AList.update k v al))
     \<subseteq> insert (status v) (set (map (\<lambda>(k, t). status t) al))"
  by (induction al) auto

lemma statuses_map_entry:
  "set (map (\<lambda>(k, t). status t) (AList.map_entry k (\<lambda>t. t\<lparr>status := st\<rparr>) al))
     \<subseteq> insert st (set (map (\<lambda>(k, t). status t) al))"
  by (induction al) auto

lemma statuses_submit:
  "set (statuses (submit p k ty n h pr)) \<subseteq> insert InProgress (set (statuses p))"
proof (cases "\<not> canAccept p \<or> has p k")
  case True
  then have "submit p k ty n h pr = p" by (auto simp: submit_def)
  then show ?thesis by auto
next
  case False
  let ?v = "\<lparr>taskId = k, ttype = ty, issueNumber = n, prNumber = pr,
             status = InProgress, aborted = False\<rparr>"
  from False have "tasks (submit p k ty n h pr) = AList.update k ?v (tasks p)"
    by (simp add: submit_def)
  then show ?thesis
    using statuses_update [of k ?v "tasks p"] by (simp add: statuses_def)
qed

lemma statuses_settle:
  "set (statuses (settle p k ok)) \<subseteq> insert (if ok then Completed else Failed) (set (statuses p))"
proof (cases "k \<in> set (map fst (invoked p))")
  case False
  then have "settle p k ok = p" by (simp add: settle_def)
  then show ?thesis by auto
next
  case True
  then have "tasks (settle p k ok)
    = AList.map_entry k (\<lambda>t. t\<lparr>status := (if ok then Completed else Failed)\<rparr>) (tasks p)"
    by (simp add: settle_def updateStatus_def)
  then show ?thesis
    using statuses_map_entry [of k "if ok then Completed else Failed" "tasks p"]
    by (simp add: statuses_def)
qed

lemma statuses_cancelAll:
  "set (statuses (cancelAll p)) \<subseteq> insert Failed (set (statuses p))"
  by (auto simp: statuses_def cancelAll_def split: if_splits)

lemma statuses_step:
  "set (statuses (pool_step p op)) \<subseteq> set (statuses p) \<union> {InProgress, Completed, Failed}"
proof (cases op)
  case (Submit k ty n h pr)
  with statuses_submit [of p k ty n h pr] show ?thesis by auto
next
  case (Settle k ok)
  with statuses_settle [of p k ok] show ?thesis by (cases ok) auto
next
  case CancelAll
  with statuses_cancelAll [of p] show ?thesis by auto
qed

subsection \<open>Claims about the WorkerPool\<close>

text \<open>
  C3.  Whatever operations (\<open>submit\<close>, the settling of a handler, \<open>cancelAll\<close>) a pool has
  gone through since its construction, and for every key \<open>k\<close>, the registry holds at most
  one task with id \<open>k\<close> whose status is \<open>pending\<close> or \<open>in-progress\<close>.  And \<open>submit\<close> with a
  key for which \<open>has\<close> is true leaves the pool as it is.
\<close>

theorem one_active_task_per_key:
  "length (active_with_key (run_pool m ops) k) \<le> 1 \<and>
   (has p k \<longrightarrow> submit p k ty n h pr = p)"
proof
  show "length (active_with_key (run_pool m ops) k) \<le> 1"
    unfolding active_with_key_def
    by (rule one_task_per_key) (rule registry_ok_reachable)
  show "has p k \<longrightarrow> submit p k ty n h pr = p"
    by (simp add: submit_def)
qed

theorem one_active_task_per_key_witness:
  "has (run_pool (Num 2) [Submit (jstr ''issue-7'') Issue 7 () None]) (jstr ''issue-7'') \<and>
   length (active_with_key
      (run_pool (Num 2) [Submit (jstr ''issue-7'') Issue 7 () None, CancelAll,
                         Submit (jstr ''issue-7'') Issue 7 () None])
      (jstr ''issue-7'')) \<le> 1 \<and>
   submit (run_pool (Num 2) [Submit (jstr ''issue-7'') Issue 7 () None])
      (jstr ''issue-7'') Issue 7 () None
     = run_pool (Num 2) [Submit (jstr ''issue-7'') Issue 7 () None]"
proof -
  have h: "has (run_pool (Num 2) [Submit (jstr ''issue-7'') Issue 7 () None]) (jstr ''issue-7'')"
    by code_simp
  from one_active_task_per_key
    [of "Num 2" "[Submit (jstr ''issue-7'') Issue 7 () None, CancelAll,
                         Submit (jstr ''issue-7'') Issue 7 () None]" "jstr ''issue-7''"
        "run_pool (Num 2) [Submit (jstr ''issue-7'') Issue 7 () None]" Issue 7 "()" None] h
  show ?thesis by blast
qed

text \<open>
  C9.  When \<open>canAccept\<close> is false, \<open>submit\<close> changes nothing: the pool is the same, so
  the registry has the same size, every entry has the same status, and no handler is
  invoked.
\<close>

theorem submit_noop_when_full:
  "\<not> canAccept p \<Longrightarrow>
   submit p k ty n h pr = p \<and>
   length (tasks (submit p k ty n h pr)) = length (tasks p) \<and>
   statuses (submit p k ty n h pr) = statuses p \<and>
   invoked (submit p k ty n h pr) = invoked p"
  by (simp add: submit_def)

theorem submit_noop_when_full_witness:
  "\<not> canAccept (run_pool (Num 1) [Submit (jstr ''issue-1'') Issue 1 () None]) \<and>
   submit (run_pool (Num 1) [Submit (jstr ''issue-1'') Issue 1 () None])
      (jstr ''issue-2'') Issue 2 () None
     = run_pool (Num 1) [Submit (jstr ''issue-1'') Issue 1 () None] \<and>
   length (tasks (submit (run_pool (Num 1) [Submit (jstr ''issue-1'') Issue 1 () None])
      (jstr ''issue-2'') Issue 2 () None)) = 1 \<and>
   statuses (submit (run_pool (Num 1) [Submit (jstr ''issue-1'') Issue 1 () None])
      (jstr ''issue-2'') Issue 2 () None) = [InProgress] \<and>
   invoked (submit (run_pool (Num 1) [Submit (jstr ''issue-1'') Issue 1 () None])
      (jstr ''issue-2'') Issue 2 () None) = [(jstr ''issue-1'', ())]"
proof -
  have full: "\<not> canAccept (run_pool (Num 1) [Submit (jstr ''issue-1'') Issue 1 () None])"
    by code_simp
  have len: "length (tasks (run_pool (Num 1) [Submit (jstr ''issue-1'') Issue 1 () None])) = 1"
    by code_simp
  have sts: "statuses (run_pool (Num 1) [Submit (jstr ''issue-1'') Issue 1 () None]) = [InProgress]"
    by code_simp
  have inv: "invoked (run_pool (Num 1) [Submit (jstr ''issue-1'') Issue 1 () None])
     = [(jstr ''issue-1'', ())]"
    by code_simp
  from submit_noop_when_full [OF full, of "jstr ''issue-2''" Issue 2 "()" None] full len sts inv
  show ?thesis by simp
qed

text \<open>
  C10.  No operation sets a status to \<open>pending\<close>: a step adds no status other than
  \<open>in-progress\<close>, \<open>completed\<close> and \<open>failed\<close>.  So no reachable registry holds a \<open>pending\<close>
  task, and there \<open>has k\<close> is true exactly when a task is stored under \<open>k\<close> with status
  \<open>in-progress\<close>.  And a \<open>submit\<close> that passes both guards registers its task under its
  key directly with status \<open>in-progress\<close>, changes no other entry, and invokes the handler.
\<close>

theorem never_pending:
  "set (statuses (pool_step p op)) \<subseteq> set (statuses p) \<union> {InProgress, Completed, Failed} \<and>
   Pending \<notin> set (statuses (run_pool m ops)) \<and>
   has (run_pool m ops) k =
     (\<exists>t. map_of (tasks (run_pool m ops)) k = Some t \<and> status t = InProgress) \<and>
   (canAccept q \<and> \<not> has q key \<longrightarrow>
      map_of (tasks (submit q key ty n h pr))
        = (map_of (tasks q))
            (key \<mapsto> \<lparr>taskId = key, ttype = ty, issueNumber = n, prNumber = pr,
                       status = InProgress, aborted = False\<rparr>) \<and>
      invoked (submit q key ty n h pr) = invoked q @ [(key, h)])"
proof (intro conjI impI)
  assume guards: "canAccept q \<and> \<not> has q key"
  then show "map_of (tasks (submit q key ty n h pr))
        = (map_of (tasks q))
            (key \<mapsto> \<lparr>taskId = key, ttype = ty, issueNumber = n, prNumber = pr,
                       status = InProgress, aborted = False\<rparr>)"
    by (simp add: submit_def update_conv')
  from guards show "invoked (submit q key ty n h pr) = invoked q @ [(key, h)]"
    by (simp add: submit_def)
next
  show "set (statuses (pool_step p op)) \<subseteq> set (statuses p) \<union> {InProgress, Completed, Failed}"
    by (rule statuses_step)
  have ok: "list_all (\<lambda>(k, t). taskId t = k \<and> status t \<noteq> Pending) (tasks (run_pool m ops))"
    using registry_ok_reachable [of m ops] by (simp add: registry_ok_def)
  then show np: "Pending \<notin> set (statuses (run_pool m ops))"
    by (auto simp: statuses_def list_all_iff)
  show "has (run_pool m ops) k =
     (\<exists>t. map_of (tasks (run_pool m ops)) k = Some t \<and> status t = InProgress)"
  proof (cases "map_of (tasks (run_pool m ops)) k")
    case None
    then show ?thesis by (simp add: has_def)
  next
    case (Some t)
    then have "(k, t) \<in> set (tasks (run_pool m ops))" by (rule map_of_SomeD)
    with ok have "status t \<noteq> Pending" by (auto simp: list_all_iff)
    with Some show ?thesis by (simp add: has_def)
  qed
qed

theorem never_pending_witness:
  "canAccept (newWorkerPool (Num 2) :: unit WorkerPool) \<and>
   \<not> has (newWorkerPool (Num 2) :: unit WorkerPool) (jstr ''issue-7'') \<and>
   map_of (tasks (submit (newWorkerPool (Num 2) :: unit WorkerPool)
                    (jstr ''issue-7'') Issue 7 () None)) (jstr ''issue-7'')
     = Some \<lparr>taskId = jstr ''issue-7'', ttype = Issue, issueNumber = 7, prNumber = None,
             status = InProgress, aborted = False\<rparr> \<and>
   invoked (submit (newWorkerPool (Num 2) :: unit WorkerPool)
              (jstr ''issue-7'') Issue 7 () None)
     = [(jstr ''issue-7'', ())]"
proof -
  have a: "canAccept (newWorkerPool (Num 2) :: unit WorkerPool)"
    by code_simp
  have b: "\<not> has (newWorkerPool (Num 2) :: unit WorkerPool) (jstr ''issue-7'')"
    by code_simp
  have c: "invoked (newWorkerPool (Num 2) :: unit WorkerPool) = []"
    by (simp add: newWorkerPool_def)
  note registered =
    never_pending
      [where q = "newWorkerPool (Num 2) :: unit WorkerPool" and key = "jstr ''issue-7''"
         and ty = Issue and n = 7 and h = "()" and pr = None,
       THEN conjunct2, THEN conjunct2, THEN conjunct2]
  from registered a b c show ?thesis by simp
qed

section \<open>Poller (poller.ts)\<close>

text \<open>
  Values that are thrown.  An error raised by a collaborator (the tracker client, git,
  the file system, the agent process) carries its message; the other constructors are
  the errors this program raises itself.
\<close>

datatype error =
    External js_string
  | ClaudeExit int
  | CancelledBeforeStart
  | TypeError

record TrackedIssue =
  number :: int
  title :: js_string
  body :: js_string
  labels :: "js_string list"

text \<open>\<open>ReviewComment\<close>; its fields \<open>id\<close>, \<open>prNumber\<close> and \<open>body\<close> are named \<open>commentId\<close>,
  \<open>commentPr\<close> and \<open>commentBody\<close> here.\<close>

record ReviewComment =
  commentId :: int
  commentPr :: int
  commentBody :: js_string
  user :: js_string
  path :: "js_string option"
  line :: "int option"
  createdAt :: js_string

text \<open>The closures the Poller hands to \<open>submit\<close>: \<open>taskHandler.handle(issue, signal)\<close> and
  \<open>reviewHandler.handle(prNumber, prComments, signal)\<close>.\<close>

datatype handler =
    HandleIssue TrackedIssue
  | HandleReview int "ReviewComment list"

text \<open>What a cycle does that can be seen from outside: the two fetches and the error
  logged by \<open>poll\<close>.\<close>

datatype poll_event =
    FetchLabeledIssues js_string
  | FetchReviewComments js_string
  | LoggedError error

record Poller =
  workerPool :: "handler WorkerPool"
  lastPollTime :: js_string
  events :: "poll_event list"

text \<open>
  What the outside gives during one cycle: the outcome of \<open>fetchLabeledIssues(label)\<close>
  and of \<open>fetchReviewComments(since)\<close> (\<open>Inl\<close> is the message of the error thrown), the
  reading of \<open>Date.now()\<close> in the i-th round of the feedback loop, and
  \<open>new Date().toISOString()\<close> at the end of the cycle.
\<close>

record cycle_env =
  labeled_issues :: "js_string \<Rightarrow> js_string + TrackedIssue list"
  review_comments :: "js_string \<Rightarrow> js_string + ReviewComment list"
  date_now :: "nat \<Rightarrow> int"
  now_iso :: js_string

text \<open>The loop of \<open>pollIssues\<close>: \<open>continue\<close> on a key the pool has, \<open>break\<close> when the pool
  is full.\<close>

fun issues_loop :: "handler WorkerPool \<Rightarrow> TrackedIssue list \<Rightarrow> handler WorkerPool" where
  "issues_loop p [] = p"
| "issues_loop p (issue # rest) =
     (if has p (jstr ''issue-'' @ show_int (number issue)) then issues_loop p rest
      else if \<not> canAccept p then p
      else issues_loop
             (submit p (jstr ''issue-'' @ show_int (number issue)) Issue (number issue)
                (HandleIssue issue) None)
             rest)"

definition pollIssues :: "cycle_env \<Rightarrow> Poller \<Rightarrow> error option \<times> Poller" where
  "pollIssues env pl =
     (let pl1 = pl\<lparr>events := events pl @ [FetchLabeledIssues (jstr ''auto-implement'')]\<rparr> in
      case labeled_issues env (jstr ''auto-implement'') of
        Inl msg \<Rightarrow> (Some (External msg), pl1)
      | Inr issues \<Rightarrow> (None, pl1\<lparr>workerPool := issues_loop (workerPool pl1) issues\<rparr>))"

text \<open>Grouping by pull request number in a \<open>Map\<close>: a group keeps the place of its first
  comment.\<close>

definition group_step ::
  "(int \<times> ReviewComment list) list \<Rightarrow> ReviewComment \<Rightarrow> (int \<times> ReviewComment list) list" where
  "group_step byPR c =
     AList.update (commentPr c)
       ((case map_of byPR (commentPr c) of None \<Rightarrow> [] | Some existing \<Rightarrow> existing) @ [c])
       byPR"

definition group_by_pr :: "ReviewComment list \<Rightarrow> (int \<times> ReviewComment list) list" where
  "group_by_pr comments = foldl group_step [] comments"

text \<open>The loop over the groups.  \<open>prComments[0]!.prNumber\<close> on an empty group would throw
  a \<open>TypeError\<close>; the groups built by \<open>group_by_pr\<close> are never empty.\<close>

fun reviews_loop ::
  "handler WorkerPool \<Rightarrow> (nat \<Rightarrow> int) \<Rightarrow> nat \<Rightarrow> (int \<times> ReviewComment list) list
     \<Rightarrow> error option \<times> handler WorkerPool" where
  "reviews_loop p now i [] = (None, p)"
| "reviews_loop p now i ((prN, prComments) # rest) =
     (if \<not> canAccept p then (None, p)
      else (case prComments of
              [] \<Rightarrow> (Some TypeError, p)
            | c # _ \<Rightarrow>
                reviews_loop
                  (submit p (jstr ''review-'' @ show_int prN @ [45] @ show_int (now i)) Review
                     (commentPr c) (HandleReview prN prComments) (Some prN))
                  now (Suc i) rest))"

definition pollReviewComments :: "cycle_env \<Rightarrow> Poller \<Rightarrow> error option \<times> Poller" where
  "pollReviewComments env pl =
     (let pl1 = pl\<lparr>events := events pl @ [FetchReviewComments (lastPollTime pl)]\<rparr> in
      case review_comments env (lastPollTime pl) of
        Inl msg \<Rightarrow> (Some (External msg), pl1)
      | Inr comments \<Rightarrow>
          if comments = [] then (None, pl1)
          else (case reviews_loop (workerPool pl1) (date_now env) 0 (group_by_pr comments) of
                  (thrown, pool) \<Rightarrow> (thrown, pl1\<lparr>workerPool := pool\<rparr>)))"

text \<open>One polling cycle: both scans and the advance of \<open>lastPollTime\<close> are inside one
  \<open>try\<close>; its \<open>catch\<close> logs the error.  Handlers that settle while a cycle waits are
  steps of the pool (\<open>settle\<close>) and are not part of the cycle.\<close>

definition poll :: "cycle_env \<Rightarrow> Poller \<Rightarrow> Poller" where
  "poll env pl =
     (case pollIssues env pl of
        (Some err, pl1) \<Rightarrow> pl1\<lparr>events := events pl1 @ [LoggedError err]\<rparr>
      | (None, pl1) \<Rightarrow>
          (case pollReviewComments env pl1 of
             (Some err, pl2) \<Rightarrow> pl2\<lparr>events := events pl2 @ [LoggedError err]\<rparr>
           | (None, pl2) \<Rightarrow> pl2\<lparr>lastPollTime := now_iso env\<rparr>))"

text \<open>Concrete pollers and environments: one cycle in which both fetches succeed, one in
  which the fetch of the labelled issues throws, one in which the fetch of the review
  comments throws.\<close>

definition poller0 :: Poller where
  "poller0 = \<lparr>workerPool = newWorkerPool (Num 3), lastPollTime = jstr ''t0'', events = []\<rparr>"

definition issue42 :: TrackedIssue where
  "issue42 = \<lparr>number = 42, title = jstr ''T'', body = jstr ''B'',
              labels = [jstr ''auto-implement'']\<rparr>"

definition comment1 :: ReviewComment where
  "comment1 = \<lparr>commentId = 1, commentPr = 5, commentBody = jstr ''fix'', user = jstr ''u'',
               path = None, line = None, createdAt = jstr ''t0''\<rparr>"

definition env_ok :: cycle_env where
  "env_ok = \<lparr>labeled_issues = (\<lambda>l. Inr [issue42]), review_comments = (\<lambda>s. Inr [comment1]),
             date_now = (\<lambda>i. 1000), now_iso = jstr ''t1''\<rparr>"

definition env_issues_fail :: cycle_env where
  "env_issues_fail = env_ok\<lparr>labeled_issues := (\<lambda>l. Inl (jstr ''boom''))\<rparr>"

definition env_reviews_fail :: cycle_env where
  "env_reviews_fail = env_ok\<lparr>review_comments := (\<lambda>s. Inl (jstr ''boom''))\<rparr>"

lemma groups_nonempty_step:
  "list_all (\<lambda>(k, g). g \<noteq> []) byPR \<Longrightarrow> list_all (\<lambda>(k, g). g \<noteq> []) (group_step byPR c)"
  unfolding group_step_def by (rule list_all_update) simp_all

lemma groups_nonempty_foldl:
  "list_all (\<lambda>(k, g). g \<noteq> []) byPR \<Longrightarrow>
   list_all (\<lambda>(k, g). g \<noteq> []) (foldl group_step byPR comments)"
  by (induction comments arbitrary: byPR) (simp_all add: groups_nonempty_step)

lemma groups_nonempty: "list_all (\<lambda>(k, g). g \<noteq> []) (group_by_pr comments)"
  unfolding group_by_pr_def by (rule groups_nonempty_foldl) simp

lemma reviews_loop_no_throw:
  "list_all (\<lambda>(k, g). g \<noteq> []) groups \<Longrightarrow> fst (reviews_loop p now i groups) = None"
  by (induction p now i groups rule: reviews_loop.induct) (auto split: list.splits)

lemma pollIssues_thrown:
  "fst (pollIssues env pl) =
     (case labeled_issues env (jstr ''auto-implement'') of
        Inl msg \<Rightarrow> Some (External msg) | Inr issues \<Rightarrow> None)"
  by (simp add: pollIssues_def Let_def split: sum.splits)

lemma pollReviewComments_thrown:
  "fst (pollReviewComments env pl) =
     (case review_comments env (lastPollTime pl) of
        Inl msg \<Rightarrow> Some (External msg) | Inr comments \<Rightarrow> None)"
proof (cases "review_comments env (lastPollTime pl)")
  case (Inl msg)
  then show ?thesis by (simp add: pollReviewComments_def Let_def)
next
  case (Inr comments)
  have "fst (reviews_loop (workerPool pl) (date_now env) 0 (group_by_pr comments)) = None"
    by (rule reviews_loop_no_throw) (rule groups_nonempty)
  with Inr show ?thesis
    by (auto simp: pollReviewComments_def Let_def split: prod.splits)
qed

lemma pollIssues_keeps:
  "lastPollTime (snd (pollIssues env pl)) = lastPollTime pl \<and>
   events (snd (pollIssues env pl)) = events pl @ [FetchLabeledIssues (jstr ''auto-implement'')]"
  by (simp add: pollIssues_def Let_def split: sum.splits)

lemma pollReviewComments_keeps:
  "lastPollTime (snd (pollReviewComments env pl)) = lastPollTime pl \<and>
   events (snd (pollReviewComments env pl)) = events pl @ [FetchReviewComments (lastPollTime pl)]"
  by (simp add: pollReviewComments_def Let_def split: sum.splits prod.splits)

lemma poll_cases:
  "poll env pl =
     (case fst (pollIssues env pl) of
        Some err \<Rightarrow> (snd (pollIssues env pl))
                      \<lparr>events := events (snd (pollIssues env pl)) @ [LoggedError err]\<rparr>
      | None \<Rightarrow>
          (case fst (pollReviewComments env (snd (pollIssues env pl))) of
             Some err \<Rightarrow>
               (snd (pollReviewComments env (snd (pollIssues env pl))))
                 \<lparr>events := events (snd (pollReviewComments env (snd (pollIssues env pl))))
                              @ [LoggedError err]\<rparr>
           | None \<Rightarrow>
               (snd (pollReviewComments env (snd (pollIssues env pl))))
                 \<lparr>lastPollTime := now_iso env\<rparr>))"
  by (simp add: poll_def split: prod.splits option.splits)

subsection \<open>Claims about the Poller\<close>

text \<open>
  C1, the claim as stated: the feedback scan would run even when the new-work scan
  throws.  In the cycle below \<open>fetchLabeledIssues\<close> throws; the cycle makes that one fetch,
  logs the error and ends: \<open>fetchReviewComments\<close> is never called.
\<close>

theorem poll_runs_scans_independently_counterexample:
  "fst (pollIssues env_issues_fail poller0) = Some (External (jstr ''boom'')) \<and>
   events (poll env_issues_fail poller0)
     = [FetchLabeledIssues (jstr ''auto-implement''), LoggedError (External (jstr ''boom''))] \<and>
   filter (\<lambda>ev. ev = FetchReviewComments (jstr ''t0'')) (events (poll env_issues_fail poller0)) = []"
  by code_simp

text \<open>
  C1, amended.  Both scans are inside the one \<open>try\<close> of \<open>poll\<close>, the new-work scan first.
  When the new-work scan throws, the feedback scan of that cycle is not run, the pool is
  untouched and the error is logged.  When the new-work scan completes, the feedback scan
  is run.  When the feedback scan then throws, what the new-work scan submitted stands,
  and the error is logged.
\<close>

theorem poll_scans_in_one_try:
  "(fst (pollIssues env pl) = Some err \<longrightarrow>
      events (poll env pl)
        = events pl @ [FetchLabeledIssues (jstr ''auto-implement''), LoggedError err] \<and>
      workerPool (poll env pl) = workerPool pl) \<and>
   (fst (pollIssues env pl) = None \<longrightarrow>
      (\<exists>rest. events (poll env pl)
         = events pl @ [FetchLabeledIssues (jstr ''auto-implement''),
                        FetchReviewComments (lastPollTime pl)] @ rest)) \<and>
   (labeled_issues env (jstr ''auto-implement'') = Inr issues \<and>
    review_comments env (lastPollTime pl) = Inl msg \<longrightarrow>
      workerPool (poll env pl) = issues_loop (workerPool pl) issues \<and>
      events (poll env pl)
        = events pl @ [FetchLabeledIssues (jstr ''auto-implement''),
                       FetchReviewComments (lastPollTime pl), LoggedError (External msg)])"
proof (intro conjI impI)
  assume thrown: "fst (pollIssues env pl) = Some err"
  then show "events (poll env pl)
        = events pl @ [FetchLabeledIssues (jstr ''auto-implement''), LoggedError err]"
    by (simp add: poll_cases pollIssues_keeps)
  from thrown show "workerPool (poll env pl) = workerPool pl"
    by (auto simp: poll_cases pollIssues_def Let_def split: sum.splits)
next
  assume "fst (pollIssues env pl) = None"
  then show "\<exists>rest. events (poll env pl)
         = events pl @ [FetchLabeledIssues (jstr ''auto-implement''),
                        FetchReviewComments (lastPollTime pl)] @ rest"
    by (simp add: poll_cases pollIssues_keeps pollReviewComments_keeps split: option.splits)
next
  assume h: "labeled_issues env (jstr ''auto-implement'') = Inr issues \<and>
    review_comments env (lastPollTime pl) = Inl msg"
  then show "workerPool (poll env pl) = issues_loop (workerPool pl) issues"
    by (simp add: poll_def pollIssues_def pollReviewComments_def Let_def)
  from h show "events (poll env pl)
        = events pl @ [FetchLabeledIssues (jstr ''auto-implement''),
                       FetchReviewComments (lastPollTime pl), LoggedError (External msg)]"
    by (simp add: poll_def pollIssues_def pollReviewComments_def Let_def)
qed


theorem poll_scans_in_one_try_witness:
  "(fst (pollIssues env_issues_fail poller0) = Some (External (jstr ''boom'')) \<and>
    events (poll env_issues_fail poller0)
      = events poller0 @ [FetchLabeledIssues (jstr ''auto-implement''),
                          LoggedError (External (jstr ''boom''))] \<and>
    workerPool (poll env_issues_fail poller0) = workerPool poller0) \<and>
   (fst (pollIssues env_reviews_fail poller0) = None \<and>
    (\<exists>rest. events (poll env_reviews_fail poller0)
       = events poller0 @ [FetchLabeledIssues (jstr ''auto-implement''),
                           FetchReviewComments (lastPollTime poller0)] @ rest)) \<and>
   (labeled_issues env_reviews_fail (jstr ''auto-implement'') = Inr [issue42] \<and>
    review_comments env_reviews_fail (lastPollTime poller0) = Inl (jstr ''boom'') \<and>
    workerPool (poll env_reviews_fail poller0) = issues_loop (workerPool poller0) [issue42] \<and>
    events (poll env_reviews_fail poller0)
      = events poller0 @ [FetchLabeledIssues (jstr ''auto-implement''),
                          FetchReviewComments (lastPollTime poller0),
                          LoggedError (External (jstr ''boom''))])"
proof -
  have a: "fst (pollIssues env_issues_fail poller0) = Some (External (jstr ''boom''))"
    by code_simp
  have b: "fst (pollIssues env_reviews_fail poller0) = None"
    by code_simp
  have c: "labeled_issues env_reviews_fail (jstr ''auto-implement'') = Inr [issue42]"
    by (simp add: env_reviews_fail_def env_ok_def)
  have d: "review_comments env_reviews_fail (lastPollTime poller0) = Inl (jstr ''boom'')"
    by (simp add: env_reviews_fail_def env_ok_def)
  from poll_scans_in_one_try
         [of env_issues_fail poller0 "External (jstr ''boom'')" "[issue42]" "jstr ''boom''"]
       poll_scans_in_one_try
         [of env_reviews_fail poller0 "External (jstr ''boom'')" "[issue42]" "jstr ''boom''"]
       a b c d
  show ?thesis by blast
qed

text \<open>
  C6.  A scan throws exactly when its fetch throws.  \<open>lastPollTime\<close> takes the time of
  the end of the cycle when both scans complete without throwing; when either throws it
  keeps its value, and the last thing the cycle does is log that error.
\<close>

theorem lastPollTime_advances_after_both_scans:
  "fst (pollIssues env pl) =
     (case labeled_issues env (jstr ''auto-implement'') of
        Inl msg \<Rightarrow> Some (External msg) | Inr issues \<Rightarrow> None) \<and>
   fst (pollReviewComments env (snd (pollIssues env pl))) =
     (case review_comments env (lastPollTime pl) of
        Inl msg \<Rightarrow> Some (External msg) | Inr comments \<Rightarrow> None) \<and>
   (fst (pollIssues env pl) = None \<and>
    fst (pollReviewComments env (snd (pollIssues env pl))) = None \<longrightarrow>
      lastPollTime (poll env pl) = now_iso env) \<and>
   (fst (pollIssues env pl) = Some err \<or>
    fst (pollIssues env pl) = None \<and>
    fst (pollReviewComments env (snd (pollIssues env pl))) = Some err \<longrightarrow>
      lastPollTime (poll env pl) = lastPollTime pl \<and>
      last (events (poll env pl)) = LoggedError err)"
proof (intro conjI impI)
  show "fst (pollIssues env pl) =
     (case labeled_issues env (jstr ''auto-implement'') of
        Inl msg \<Rightarrow> Some (External msg) | Inr issues \<Rightarrow> None)"
    by (rule pollIssues_thrown)
  show "fst (pollReviewComments env (snd (pollIssues env pl))) =
     (case review_comments env (lastPollTime pl) of
        Inl msg \<Rightarrow> Some (External msg) | Inr comments \<Rightarrow> None)"
    by (simp add: pollReviewComments_thrown pollIssues_keeps)
next
  assume "fst (pollIssues env pl) = None \<and>
    fst (pollReviewComments env (snd (pollIssues env pl))) = None"
  then show "lastPollTime (poll env pl) = now_iso env"
    by (simp add: poll_cases)
next
  assume thrown: "fst (pollIssues env pl) = Some err \<or>
    fst (pollIssues env pl) = None \<and>
    fst (pollReviewComments env (snd (pollIssues env pl))) = Some err"
  then show "lastPollTime (poll env pl) = lastPollTime pl"
    by (auto simp: poll_cases pollIssues_keeps pollReviewComments_keeps)
  from thrown show "last (events (poll env pl)) = LoggedError err"
    by (auto simp: poll_cases)
qed

theorem lastPollTime_advances_after_both_scans_witness:
  "(fst (pollIssues env_ok poller0) = None \<and>
    fst (pollReviewComments env_ok (snd (pollIssues env_ok poller0))) = None \<and>
    lastPollTime (poll env_ok poller0) = jstr ''t1'') \<and>
   (fst (pollIssues env_issues_fail poller0) = Some (External (jstr ''boom'')) \<and>
    lastPollTime (poll env_issues_fail poller0) = jstr ''t0'' \<and>
    last (events (poll env_issues_fail poller0)) = LoggedError (External (jstr ''boom''))) \<and>
   (fst (pollIssues env_reviews_fail poller0) = None \<and>
    fst (pollReviewComments env_reviews_fail (snd (pollIssues env_reviews_fail poller0)))
      = Some (External (jstr ''boom'')) \<and>
    lastPollTime (poll env_reviews_fail poller0) = jstr ''t0'' \<and>
    last (events (poll env_reviews_fail poller0)) = LoggedError (External (jstr ''boom'')))"
proof -
  have a1: "fst (pollIssues env_ok poller0) = None" by code_simp
  have a2: "fst (pollReviewComments env_ok (snd (pollIssues env_ok poller0))) = None"
    by code_simp
  have a3: "now_iso env_ok = jstr ''t1''" by (simp add: env_ok_def)
  have b1: "fst (pollIssues env_issues_fail poller0) = Some (External (jstr ''boom''))"
    by code_simp
  have c1: "fst (pollIssues env_reviews_fail poller0) = None" by code_simp
  have c2: "fst (pollReviewComments env_reviews_fail (snd (pollIssues env_reviews_fail poller0)))
      = Some (External (jstr ''boom''))"
    by code_simp
  have t0: "lastPollTime poller0 = jstr ''t0''" by (simp add: poller0_def)
  from lastPollTime_advances_after_both_scans [of env_ok poller0 "External (jstr ''boom'')"]
       lastPollTime_advances_after_both_scans
         [of env_issues_fail poller0 "External (jstr ''boom'')"]
       lastPollTime_advances_after_both_scans
         [of env_reviews_fail poller0 "External (jstr ''boom'')"]
       a1 a2 a3 b1 c1 c2 t0
  show ?thesis by simp
qed

section \<open>The task handlers (task-handler.ts, review-handler.ts, claude.ts)\<close>

text \<open>
  A handler talks to collaborators: the tracker client, git, the file system and the
  agent process.  Every such call is an \<open>action\<close>; a run records the actions it attempts,
  in order, in \<open>calls\<close>.  The fixed texts of comments, prompts and the body of a pull
  request are kept as constructors that hold the values put into the text.
\<close>

datatype prompt =
    IssuePrompt TrackedIssue js_string
  | ReviewPrompt "ReviewComment list"

datatype comment =
    ImplementStarted
  | PrCreated int "js_string option"
  | ImplementFailed error
  | ReviewStarted nat
  | ReviewPushed
  | ReviewFailed error

datatype pr_body = PrBody int js_string "decision_point list" "js_string option"

datatype action =
    RemoveLabel int js_string
  | AddLabel int js_string
  | PostComment int comment
  | CreatePullRequest js_string pr_body js_string
  | GetPRBranch int
  | Git "js_string list" js_string
  | ReadFile js_string
  | SpawnClaude prompt js_string "js_string option" "js_string list"
  | KillClaude

text \<open>
  The outside: whether a call throws, given the calls made before it, and with what
  message; the branch of a pull request; the number of a pull request created from a
  branch; the content of \<open>docs/todo/todo.md\<close>; what the agent process closes with (exit
  code, \<open>null\<close> when a signal ended it, stdout and stderr); and whether the abort signal is
  already aborted when the agent is started.
\<close>

record world =
  throws :: "action list \<Rightarrow> action \<Rightarrow> js_string option"
  pr_branch :: "int \<Rightarrow> js_string"
  new_pr :: "js_string \<Rightarrow> int"
  todo_md :: js_string
  claude_close :: "action \<Rightarrow> int option \<times> js_string \<times> js_string"
  signal_aborted :: bool

text \<open>The state a run works on: the calls attempted so far, and \<open>sessionStore\<close>, the
  module-level \<open>Map\<close> from pull request number to session id.\<close>

record hstate =
  calls :: "action list"
  sessionStore :: "int \<rightharpoonup> js_string"

record handler_config =
  allowedTools :: "js_string list"
  repoRoot :: js_string

record ClaudeRunOptions =
  opt_prompt :: prompt
  cwd :: js_string
  resumeSessionId :: "js_string option"
  opt_allowedTools :: "js_string list option"

record ClaudeResult =
  exitCode :: int
  stdout :: js_string
  stderr :: js_string
  sessionId :: "js_string option"

datatype outcome = Resolved | Rejected error

text \<open>An awaited call: it is recorded, and throws or returns.\<close>

definition ext :: "world \<Rightarrow> action \<Rightarrow> hstate \<Rightarrow> (error + unit) \<times> hstate" where
  "ext w a s =
     ((case throws w (calls s) a of Some msg \<Rightarrow> Inl (External msg) | None \<Rightarrow> Inr ()),
      s\<lparr>calls := calls s @ [a]\<rparr>)"

text \<open>Sequencing inside a \<open>try\<close>: a throw skips what follows.\<close>

definition and_then ::
  "(hstate \<Rightarrow> (error + 'a) \<times> hstate) \<Rightarrow> ('a \<Rightarrow> hstate \<Rightarrow> (error + 'b) \<times> hstate)
     \<Rightarrow> hstate \<Rightarrow> (error + 'b) \<times> hstate" where
  "and_then m f s = (case m s of (Inl e, s') \<Rightarrow> (Inl e, s') | (Inr x, s') \<Rightarrow> f x s')"

text \<open>\<open>call.catch(() => {})\<close>: the call is attempted and its failure dropped.\<close>

definition attempt :: "(hstate \<Rightarrow> (error + 'a) \<times> hstate) \<Rightarrow> hstate \<Rightarrow> hstate" where
  "attempt m s = snd (m s)"

text \<open>Truthiness of a value that is a string or \<open>undefined\<close>.\<close>

fun truthy :: "js_string option \<Rightarrow> bool" where
  "truthy None = False"
| "truthy (Some v) = (v \<noteq> [])"

text \<open>
  \<open>path.join\<close> and \<open>path.normalize\<close> of the POSIX \<open>path\<close> module.  The non-empty
  arguments are joined by \<open>/\<close> and the result is normalised: empty segments and \<open>.\<close> are
  dropped, \<open>..\<close> removes the segment before it (on a relative path it stays when there
  is none to remove), a leading and a trailing \<open>/\<close> are kept once.
\<close>

fun join_with :: "int \<Rightarrow> js_string list \<Rightarrow> js_string" where
  "join_with sep [] = []"
| "join_with sep [x] = x"
| "join_with sep (x # y # ys) = x @ [sep] @ join_with sep (y # ys)"

definition normalize_step :: "bool \<Rightarrow> js_string list \<Rightarrow> js_string \<Rightarrow> js_string list" where
  "normalize_step allowAboveRoot res seg =
     (if seg = [] \<or> seg = jstr ''.'' then res
      else if seg = jstr ''..'' then
        (if res \<noteq> [] \<and> last res \<noteq> jstr ''..'' then butlast res
         else if allowAboveRoot then res @ [jstr ''..'']
         else res)
      else res @ [seg])"

definition normalizeString :: "js_string \<Rightarrow> bool \<Rightarrow> js_string" where
  "normalizeString p allowAboveRoot =
     join_with 47 (foldl (normalize_step allowAboveRoot) [] (split_on 47 p))"

definition path_normalize :: "js_string \<Rightarrow> js_string" where
  "path_normalize p =
     (if p = [] then jstr ''.''
      else
        (let isAbsolute = (hd p = 47);
             trailingSeparator = (last p = 47);
             q = normalizeString p (\<not> isAbsolute)
         in if q = [] then
              (if isAbsolute then jstr ''/''
               else if trailingSeparator then jstr ''./''
               else jstr ''.'')
            else (if isAbsolute then [47] else []) @ q @
                 (if trailingSeparator then [47] else [])))"

definition path_join :: "js_string list \<Rightarrow> js_string" where
  "path_join args =
     (let parts = filter (\<lambda>a. a \<noteq> []) args
      in if parts = [] then jstr ''.'' else path_normalize (join_with 47 parts))"

definition LABELS_trigger :: js_string where "LABELS_trigger = jstr ''auto-implement''"
definition LABELS_inProgress :: js_string where "LABELS_inProgress = jstr ''auto-in-progress''"
definition LABELS_failed :: js_string where "LABELS_failed = jstr ''auto-failed''"

text \<open>
  \<open>runClaude\<close>: the process is spawned; with a signal that is already aborted it is killed
  and the promise rejects; an \<open>error\<close> event rejects; the \<open>close\<close> event resolves with the
  exit code (\<open>code ?? 1\<close>), the output, and the session id extracted from stdout.
  \<open>--resume\<close> is passed only for a truthy session id.
\<close>

definition runClaude :: "world \<Rightarrow> ClaudeRunOptions \<Rightarrow> hstate \<Rightarrow> (error + ClaudeResult) \<times> hstate" where
  "runClaude w opts s =
     (let spawn = SpawnClaude (opt_prompt opts) (cwd opts)
                    (if truthy (resumeSessionId opts) then resumeSessionId opts else None)
                    (case opt_allowedTools opts of None \<Rightarrow> [] | Some ts \<Rightarrow> ts);
          s1 = s\<lparr>calls := calls s @ [spawn]\<rparr>
      in if signal_aborted w then (Inl CancelledBeforeStart, s1\<lparr>calls := calls s1 @ [KillClaude]\<rparr>)
         else (case throws w (calls s) spawn of
                 Some msg \<Rightarrow> (Inl (External msg), s1)
               | None \<Rightarrow>
                   (case claude_close w spawn of
                      (code, out, err) \<Rightarrow>
                        (Inr \<lparr>exitCode = (case code of None \<Rightarrow> 1 | Some c \<Rightarrow> c),
                              stdout = out, stderr = err,
                              sessionId = extractSessionId out\<rparr>,
                         s1))))"

definition tools_option :: "handler_config \<Rightarrow> js_string list option" where
  "tools_option cfg = (if length (allowedTools cfg) > 0 then Some (allowedTools cfg) else None)"

definition removeWorktree :: "world \<Rightarrow> handler_config \<Rightarrow> js_string \<Rightarrow> hstate \<Rightarrow> (error + unit) \<times> hstate" where
  "removeWorktree w cfg worktreePath =
     ext w (Git [jstr ''worktree'', jstr ''remove'', worktreePath, jstr ''--force''] (repoRoot cfg))"

subsection \<open>TaskHandler\<close>

definition issue_branch :: "TrackedIssue \<Rightarrow> js_string" where
  "issue_branch issue = jstr ''auto/issue-'' @ show_int (number issue)"

definition issue_worktree :: "handler_config \<Rightarrow> TrackedIssue \<Rightarrow> js_string" where
  "issue_worktree cfg issue =
     path_join [repoRoot cfg, jstr ''.worktrees'', jstr ''issue-'' @ show_int (number issue)]"

text \<open>\<open>createWorktree\<close> of the TaskHandler: from the remote branch when it can be fetched,
  else a new branch from \<open>main\<close>.\<close>

definition createWorktree_issue ::
  "world \<Rightarrow> handler_config \<Rightarrow> js_string \<Rightarrow> js_string \<Rightarrow> hstate \<Rightarrow> (error + unit) \<times> hstate" where
  "createWorktree_issue w cfg worktreePath branchName s =
     (case and_then (ext w (Git [jstr ''fetch'', jstr ''origin'', branchName] (repoRoot cfg)))
             (\<lambda>_. and_then
                (ext w (Git [jstr ''worktree'', jstr ''add'', worktreePath,
                             jstr ''origin/'' @ branchName] (repoRoot cfg)))
                (\<lambda>_. ext w (Git [jstr ''checkout'', jstr ''-B'', branchName,
                                  jstr ''origin/'' @ branchName] worktreePath))) s of
        (Inr u, s') \<Rightarrow> (Inr u, s')
      | (Inl e, s') \<Rightarrow>
          ext w (Git [jstr ''worktree'', jstr ''add'', jstr ''-b'', branchName, worktreePath,
                      jstr ''main''] (repoRoot cfg)) s')"

text \<open>\<open>buildPrompt\<close>: \<open>todo.md\<close> is read; when the read throws its content is empty.\<close>

definition buildPrompt_issue ::
  "world \<Rightarrow> handler_config \<Rightarrow> TrackedIssue \<Rightarrow> hstate \<Rightarrow> (error + prompt) \<times> hstate" where
  "buildPrompt_issue w cfg issue s =
     (case ext w (ReadFile (path_join [repoRoot cfg, jstr ''docs/todo/todo.md''])) s of
        (Inr u, s') \<Rightarrow> (Inr (IssuePrompt issue (todo_md w)), s')
      | (Inl e, s') \<Rightarrow> (Inr (IssuePrompt issue []), s'))"

text \<open>The \<open>try\<close> block up to the return of the agent.\<close>

definition implement_until_agent ::
  "world \<Rightarrow> handler_config \<Rightarrow> TrackedIssue \<Rightarrow> hstate \<Rightarrow> (error + ClaudeResult) \<times> hstate" where
  "implement_until_agent w cfg issue =
     and_then (ext w (RemoveLabel (number issue) LABELS_trigger)) (\<lambda>_.
     and_then (ext w (AddLabel (number issue) LABELS_inProgress)) (\<lambda>_.
     and_then (ext w (PostComment (number issue) ImplementStarted)) (\<lambda>_.
     and_then (createWorktree_issue w cfg (issue_worktree cfg issue) (issue_branch issue)) (\<lambda>_.
     and_then (buildPrompt_issue w cfg issue) (\<lambda>prompt.
       runClaude w \<lparr>opt_prompt = prompt, cwd = issue_worktree cfg issue,
                    resumeSessionId = None, opt_allowedTools = tools_option cfg\<rparr>)))))"

text \<open>The rest of the \<open>try\<close> block: the check of the exit code, the push, the pull request,
  the comment with its link, the removal of the in-progress label.\<close>

definition implement_after_agent ::
  "world \<Rightarrow> handler_config \<Rightarrow> TrackedIssue \<Rightarrow> ClaudeResult \<Rightarrow> hstate \<Rightarrow> (error + unit) \<times> hstate" where
  "implement_after_agent w cfg issue result =
     (if exitCode result \<noteq> 0 then (\<lambda>s. (Inl (ClaudeExit (exitCode result)), s))
      else
        and_then (ext w (Git [jstr ''push'', jstr ''-u'', jstr ''origin'', issue_branch issue]
                           (issue_worktree cfg issue))) (\<lambda>_.
        and_then (ext w (CreatePullRequest
                           (jstr ''feat: #'' @ show_int (number issue) @ [32] @ title issue)
                           (PrBody (number issue) (title issue)
                              (extractDecisionPoints (stdout result)) (sessionId result))
                           (issue_branch issue))) (\<lambda>_.
        and_then (ext w (PostComment (number issue)
                           (PrCreated (new_pr w (issue_branch issue)) (sessionId result)))) (\<lambda>_.
        ext w (RemoveLabel (number issue) LABELS_inProgress)))))"

text \<open>The \<open>catch\<close> block: three calls, each with its own \<open>.catch(() => {})\<close>.\<close>

definition implement_catch :: "world \<Rightarrow> TrackedIssue \<Rightarrow> error \<Rightarrow> hstate \<Rightarrow> hstate" where
  "implement_catch w issue err s =
     attempt (ext w (PostComment (number issue) (ImplementFailed err)))
       (attempt (ext w (AddLabel (number issue) LABELS_failed))
          (attempt (ext w (RemoveLabel (number issue) LABELS_inProgress)) s))"

text \<open>\<open>TaskHandler.handle\<close>: \<open>try\<close>, \<open>catch\<close>, and in \<open>finally\<close> the removal of the worktree.
  Nothing is rethrown, so the promise always resolves.\<close>

definition TaskHandler_handle ::
  "world \<Rightarrow> handler_config \<Rightarrow> TrackedIssue \<Rightarrow> hstate \<Rightarrow> outcome \<times> hstate" where
  "TaskHandler_handle w cfg issue s =
     (case and_then (implement_until_agent w cfg issue) (implement_after_agent w cfg issue) s of
        (r, s1) \<Rightarrow>
          (Resolved,
           attempt (removeWorktree w cfg (issue_worktree cfg issue))
             (case r of Inr u \<Rightarrow> s1 | Inl err \<Rightarrow> implement_catch w issue err s1)))"

subsection \<open>ReviewHandler\<close>

definition review_worktree :: "handler_config \<Rightarrow> int \<Rightarrow> js_string" where
  "review_worktree cfg prN =
     path_join [repoRoot cfg, jstr ''.worktrees'', jstr ''review-pr-'' @ show_int prN]"

text \<open>\<open>createWorktree\<close> of the ReviewHandler: the existing remote branch, no fallback.\<close>

definition createWorktree_review ::
  "world \<Rightarrow> handler_config \<Rightarrow> js_string \<Rightarrow> js_string \<Rightarrow> hstate \<Rightarrow> (error + unit) \<times> hstate" where
  "createWorktree_review w cfg worktreePath branchName =
     and_then (ext w (Git [jstr ''fetch'', jstr ''origin'', branchName] (repoRoot cfg))) (\<lambda>_.
     and_then (ext w (Git [jstr ''worktree'', jstr ''add'', worktreePath,
                           jstr ''origin/'' @ branchName] (repoRoot cfg))) (\<lambda>_.
     ext w (Git [jstr ''checkout'', jstr ''-B'', branchName, jstr ''origin/'' @ branchName]
              worktreePath)))"

text \<open>The \<open>try\<close> block up to the return of the agent, which is given the stored session
  id of the pull request.\<close>

definition review_until_agent ::
  "world \<Rightarrow> handler_config \<Rightarrow> int \<Rightarrow> ReviewComment list \<Rightarrow> hstate \<Rightarrow> (error + ClaudeResult) \<times> hstate" where
  "review_until_agent w cfg prN comments =
     and_then (createWorktree_review w cfg (review_worktree cfg prN) (pr_branch w prN)) (\<lambda>_.
     and_then (ext w (PostComment prN (ReviewStarted (length comments)))) (\<lambda>_. (\<lambda>s.
       runClaude w \<lparr>opt_prompt = ReviewPrompt comments, cwd = review_worktree cfg prN,
                    resumeSessionId = sessionStore s prN,
                    opt_allowedTools = tools_option cfg\<rparr> s)))"

text \<open>The rest of the \<open>try\<close> block: the session id is stored when the result has a truthy
  one, then the exit code is checked, then come the push and the comment.\<close>

definition review_after_agent ::
  "world \<Rightarrow> handler_config \<Rightarrow> int \<Rightarrow> ClaudeResult \<Rightarrow> hstate \<Rightarrow> (error + unit) \<times> hstate" where
  "review_after_agent w cfg prN result s =
     (let s1 = (if truthy (sessionId result)
                then s\<lparr>sessionStore := (sessionStore s)(prN := sessionId result)\<rparr>
                else s)
      in if exitCode result \<noteq> 0 then (Inl (ClaudeExit (exitCode result)), s1)
         else and_then (ext w (Git [jstr ''push'', jstr ''origin'', pr_branch w prN]
                                  (review_worktree cfg prN)))
                (\<lambda>_. ext w (PostComment prN ReviewPushed)) s1)"

text \<open>\<open>ReviewHandler.handle\<close>.  \<open>getPRBranch\<close> is called before the \<open>try\<close>: when it throws the
  promise rejects and nothing else is done.\<close>

definition ReviewHandler_handle ::
  "world \<Rightarrow> handler_config \<Rightarrow> int \<Rightarrow> ReviewComment list \<Rightarrow> hstate \<Rightarrow> outcome \<times> hstate" where
  "ReviewHandler_handle w cfg prN comments s =
     (case ext w (GetPRBranch prN) s of
        (Inl e, s0) \<Rightarrow> (Rejected e, s0)
      | (Inr u, s0) \<Rightarrow>
          (case and_then (review_until_agent w cfg prN comments)
                  (review_after_agent w cfg prN) s0 of
             (r, s1) \<Rightarrow>
               (Resolved,
                attempt (removeWorktree w cfg (review_worktree cfg prN))
                  (case r of
                     Inr u \<Rightarrow> s1
                   | Inl err \<Rightarrow> attempt (ext w (PostComment prN (ReviewFailed err))) s1))))"

subsection \<open>Traces of a run\<close>

text \<open>Kinds of actions named by the claims.\<close>

fun is_push :: "action \<Rightarrow> bool" where
  "is_push (Git args dir) = (take 1 args = [jstr ''push''])"
| "is_push _ = False"

fun is_create_pr :: "action \<Rightarrow> bool" where
  "is_create_pr (CreatePullRequest t b h) = True"
| "is_create_pr _ = False"

fun is_failure_label_add :: "action \<Rightarrow> bool" where
  "is_failure_label_add (AddLabel n l) = (l = LABELS_failed)"
| "is_failure_label_add _ = False"

fun is_error_comment :: "action \<Rightarrow> bool" where
  "is_error_comment (PostComment n (ImplementFailed e)) = True"
| "is_error_comment _ = False"

fun is_discard :: "action \<Rightarrow> bool" where
  "is_discard (Git args dir) = (take 2 args = [jstr ''worktree'', jstr ''remove''])"
| "is_discard _ = False"

fun is_in_progress_removal :: "action \<Rightarrow> bool" where
  "is_in_progress_removal (RemoveLabel n l) = (l = LABELS_inProgress)"
| "is_in_progress_removal _ = False"

definition count_calls :: "(action \<Rightarrow> bool) \<Rightarrow> hstate \<Rightarrow> nat" where
  "count_calls P s = length (filter P (calls s))"

text \<open>An action that is none of these.\<close>

definition quiet :: "action \<Rightarrow> bool" where
  "quiet a =
     (\<not> is_push a \<and> \<not> is_create_pr a \<and> \<not> is_failure_label_add a \<and>
      \<not> is_error_comment a \<and> \<not> is_discard a \<and> \<not> is_in_progress_removal a)"

text \<open>A computation that only appends calls, all of them satisfying \<open>Q\<close>.\<close>

definition adds_only :: "(action \<Rightarrow> bool) \<Rightarrow> (hstate \<Rightarrow> 'x \<times> hstate) \<Rightarrow> bool" where
  "adds_only Q m = (\<forall>s. \<exists>extra. calls (snd (m s)) = calls s @ extra \<and> list_all Q extra)"

lemma adds_only_ext: "Q a \<Longrightarrow> adds_only Q (ext w a)"
  by (simp add: adds_only_def ext_def)

lemma adds_only_and_then:
  assumes m: "adds_only Q m" and f: "\<And>x. adds_only Q (f x)"
  shows "adds_only Q (and_then m f)"
  unfolding adds_only_def
proof
  fix s
  obtain r s' where ms: "m s = (r, s')" by (cases "m s")
  from m obtain e1 where e1: "calls (snd (m s)) = calls s @ e1" "list_all Q e1"
    unfolding adds_only_def by blast
  show "\<exists>extra. calls (snd (and_then m f s)) = calls s @ extra \<and> list_all Q extra"
  proof (cases r)
    case (Inl e)
    with ms e1 show ?thesis by (auto simp: and_then_def)
  next
    case (Inr x)
    from f [of x] obtain e2 where e2: "calls (snd (f x s')) = calls s' @ e2" "list_all Q e2"
      unfolding adds_only_def by blast
    with ms e1 Inr have "calls (snd (and_then m f s)) = calls s @ (e1 @ e2) \<and> list_all Q (e1 @ e2)"
      by (simp add: and_then_def)
    then show ?thesis by blast
  qed
qed

lemma adds_only_runClaude:
  "(\<And>p d r t. Q (SpawnClaude p d r t)) \<Longrightarrow> Q KillClaude \<Longrightarrow> adds_only Q (runClaude w opts)"
  by (auto simp: adds_only_def runClaude_def Let_def split: option.splits prod.splits)

lemma quiet_simps:
  "quiet (RemoveLabel n LABELS_trigger)"
  "quiet (AddLabel n LABELS_inProgress)"
  "quiet (PostComment n ImplementStarted)"
  "quiet (PostComment n (ReviewStarted k))"
  "quiet (Git [jstr ''fetch'', a, b] d)"
  "quiet (Git [jstr ''worktree'', jstr ''add'', a, b] d)"
  "quiet (Git [jstr ''worktree'', jstr ''add'', jstr ''-b'', a, b, c] d)"
  "quiet (Git [jstr ''checkout'', a, b, c] d)"
  "quiet (ReadFile f)"
  "quiet (SpawnClaude p d r t)"
  "quiet KillClaude"
  by (simp_all add: quiet_def LABELS_trigger_def LABELS_inProgress_def LABELS_failed_def jstr_def)

lemma adds_only_createWorktree_issue:
  "adds_only quiet (createWorktree_issue w cfg wt br)"
  unfolding adds_only_def
proof
  fix s
  let ?m = "and_then (ext w (Git [jstr ''fetch'', jstr ''origin'', br] (repoRoot cfg)))
             (\<lambda>_. and_then
                (ext w (Git [jstr ''worktree'', jstr ''add'', wt, jstr ''origin/'' @ br] (repoRoot cfg)))
                (\<lambda>_. ext w (Git [jstr ''checkout'', jstr ''-B'', br, jstr ''origin/'' @ br] wt)))"
  have "adds_only quiet ?m"
    by (intro adds_only_and_then adds_only_ext quiet_simps)
  then obtain e1 where e1: "calls (snd (?m s)) = calls s @ e1" "list_all quiet e1"
    unfolding adds_only_def by blast
  obtain r s' where ms: "?m s = (r, s')" by (cases "?m s")
  show "\<exists>extra. calls (snd (createWorktree_issue w cfg wt br s)) = calls s @ extra \<and>
          list_all quiet extra"
  proof (cases r)
    case (Inr u)
    with ms e1 show ?thesis by (auto simp: createWorktree_issue_def)
  next
    case (Inl e)
    let ?a = "Git [jstr ''worktree'', jstr ''add'', jstr ''-b'', br, wt, jstr ''main''] (repoRoot cfg)"
    from ms e1 Inl have "calls (snd (createWorktree_issue w cfg wt br s)) = calls s @ (e1 @ [?a])"
      by (simp add: createWorktree_issue_def ext_def)
    moreover from e1 have "list_all quiet (e1 @ [?a])" by (simp add: quiet_simps)
    ultimately show ?thesis by blast
  qed
qed

lemma adds_only_buildPrompt_issue: "adds_only quiet (buildPrompt_issue w cfg issue)"
  by (auto simp: adds_only_def buildPrompt_issue_def ext_def quiet_simps split: option.splits)

lemma adds_only_implement_until_agent: "adds_only quiet (implement_until_agent w cfg issue)"
  unfolding implement_until_agent_def
  by (intro adds_only_and_then adds_only_ext adds_only_createWorktree_issue
        adds_only_buildPrompt_issue adds_only_runClaude quiet_simps)

lemma filter_quiet:
  "list_all quiet xs \<Longrightarrow>
   filter is_push xs = [] \<and> filter is_create_pr xs = [] \<and> filter is_failure_label_add xs = [] \<and>
   filter is_error_comment xs = [] \<and> filter is_discard xs = [] \<and>
   filter is_in_progress_removal xs = []"
  by (induction xs) (auto simp: quiet_def)


text \<open>A computation that leaves \<open>sessionStore\<close> as it is.\<close>

definition keeps_store :: "(hstate \<Rightarrow> 'x \<times> hstate) \<Rightarrow> bool" where
  "keeps_store m = (\<forall>s. sessionStore (snd (m s)) = sessionStore s)"

lemma keeps_store_ext: "keeps_store (ext w a)"
  by (simp add: keeps_store_def ext_def)

lemma keeps_store_and_then:
  "keeps_store m \<Longrightarrow> (\<And>x. keeps_store (f x)) \<Longrightarrow> keeps_store (and_then m f)"
  unfolding keeps_store_def and_then_def
  by (auto split: prod.splits sum.splits) (metis snd_conv)+

lemma keeps_store_runClaude: "keeps_store (\<lambda>s. runClaude w (opts s) s)"
  by (auto simp: keeps_store_def runClaude_def Let_def split: option.splits prod.splits)

lemma keeps_store_review_until_agent: "keeps_store (review_until_agent w cfg prN comments)"
  unfolding review_until_agent_def createWorktree_review_def
  by (intro keeps_store_and_then keeps_store_ext keeps_store_runClaude)

lemma store_after_attempt_ext: "sessionStore (attempt (ext w a) s) = sessionStore s"
  by (simp add: attempt_def ext_def)

lemma store_review_after_agent:
  "sessionStore (snd (review_after_agent w cfg prN result s))
     = (if truthy (sessionId result) then (sessionStore s)(prN := sessionId result)
        else sessionStore s)"
proof -
  have k: "keeps_store (and_then (ext w a) (\<lambda>_. ext w b))" for a b
    by (intro keeps_store_and_then keeps_store_ext)
  show ?thesis
    using k unfolding keeps_store_def
    by (simp add: review_after_agent_def Let_def)
qed


text \<open>Concrete inputs.\<close>

definition cfg0 :: handler_config where
  "cfg0 = \<lparr>allowedTools = [], repoRoot = jstr ''/app''\<rparr>"

text \<open>A world in which the agent exits with code 1 after printing a session id, and in
  which removing the in-progress label and adding the failure label both throw.\<close>

definition world_exit1 :: world where
  "world_exit1 =
     \<lparr>throws = (\<lambda>before a.
         if a = RemoveLabel 42 LABELS_inProgress \<or> a = AddLabel 42 LABELS_failed
         then Some (jstr ''HTTP 500'') else None),
      pr_branch = (\<lambda>n. jstr ''auto/issue-42''),
      new_pr = (\<lambda>b. 43),
      todo_md = jstr ''todo'',
      claude_close = (\<lambda>a. (Some 1, jstr ''{\"session_id\":\"s2\"}'', [])),
      signal_aborted = False\<rparr>"

definition state0 :: hstate where
  "state0 = \<lparr>calls = [], sessionStore = [7 \<mapsto> jstr ''s1'']\<rparr>"

text \<open>A world in which the branch of the pull request cannot be read.\<close>

definition world_no_branch :: world where
  "world_no_branch =
     world_exit1\<lparr>throws := (\<lambda>before a. if a = GetPRBranch 7 then Some (jstr ''HTTP 404'') else None)\<rparr>"

subsection \<open>Claims about the handlers\<close>

text \<open>
  C5.  Take a run of \<open>TaskHandler.handle\<close> in which no step before the agent throws out
  of the \<open>try\<close> block and the agent returns exit code 1.  Then what the run does after
  the agent returns is exactly: remove the in-progress label, add the failure label, post
  the error comment, remove the worktree.  In the whole run there is
  no push and no pull request creation, one failure-label add, one error comment, one
  worktree removal and one removal of the in-progress label.  Nothing is assumed about
  whether these four calls throw: each is attempted whatever happens to the others.
\<close>

theorem implement_agent_failure:
  "calls s = [] \<and> fst (implement_until_agent w cfg issue s) = Inr result \<and> exitCode result = 1 \<longrightarrow>
   calls (snd (TaskHandler_handle w cfg issue s))
     = calls (snd (implement_until_agent w cfg issue s)) @
       [RemoveLabel (number issue) LABELS_inProgress,
        AddLabel (number issue) LABELS_failed,
        PostComment (number issue) (ImplementFailed (ClaudeExit 1)),
        Git [jstr ''worktree'', jstr ''remove'', issue_worktree cfg issue, jstr ''--force'']
          (repoRoot cfg)] \<and>
   count_calls is_push (snd (TaskHandler_handle w cfg issue s)) = 0 \<and>
   count_calls is_create_pr (snd (TaskHandler_handle w cfg issue s)) = 0 \<and>
   count_calls is_failure_label_add (snd (TaskHandler_handle w cfg issue s)) = 1 \<and>
   count_calls is_error_comment (snd (TaskHandler_handle w cfg issue s)) = 1 \<and>
   count_calls is_discard (snd (TaskHandler_handle w cfg issue s)) = 1 \<and>
   count_calls is_in_progress_removal (snd (TaskHandler_handle w cfg issue s)) = 1"
proof
  assume h: "calls s = [] \<and> fst (implement_until_agent w cfg issue s) = Inr result \<and>
    exitCode result = 1"
  define s1 where "s1 = snd (implement_until_agent w cfg issue s)"
  let ?tail = "[RemoveLabel (number issue) LABELS_inProgress,
        AddLabel (number issue) LABELS_failed,
        PostComment (number issue) (ImplementFailed (ClaudeExit 1)),
        Git [jstr ''worktree'', jstr ''remove'', issue_worktree cfg issue, jstr ''--force'']
          (repoRoot cfg)]"
  from h have until: "implement_until_agent w cfg issue s = (Inr result, s1)"
    by (simp add: s1_def prod_eq_iff)
  with h have tried:
    "and_then (implement_until_agent w cfg issue) (implement_after_agent w cfg issue) s
      = (Inl (ClaudeExit 1), s1)"
    by (simp add: and_then_def implement_after_agent_def)
  have trace: "calls (snd (TaskHandler_handle w cfg issue s)) = calls s1 @ ?tail"
    by (simp add: TaskHandler_handle_def tried implement_catch_def attempt_def ext_def
          removeWorktree_def)
  from adds_only_implement_until_agent [of w cfg issue] h
  obtain extra where "calls s1 = extra" and "list_all quiet extra"
    unfolding adds_only_def s1_def by (metis append_Nil)
  then have q: "list_all quiet (calls s1)" by simp
  note fq = filter_quiet [OF q]
  show "calls (snd (TaskHandler_handle w cfg issue s))
     = calls (snd (implement_until_agent w cfg issue s)) @ ?tail \<and>
   count_calls is_push (snd (TaskHandler_handle w cfg issue s)) = 0 \<and>
   count_calls is_create_pr (snd (TaskHandler_handle w cfg issue s)) = 0 \<and>
   count_calls is_failure_label_add (snd (TaskHandler_handle w cfg issue s)) = 1 \<and>
   count_calls is_error_comment (snd (TaskHandler_handle w cfg issue s)) = 1 \<and>
   count_calls is_discard (snd (TaskHandler_handle w cfg issue s)) = 1 \<and>
   count_calls is_in_progress_removal (snd (TaskHandler_handle w cfg issue s)) = 1"
    unfolding count_calls_def trace
    using fq
    by (simp add: s1_def LABELS_inProgress_def LABELS_failed_def jstr_def)
qed

theorem implement_agent_failure_witness:
  "calls state0 = [] \<and>
   fst (implement_until_agent world_exit1 cfg0 issue42 state0)
     = Inr \<lparr>exitCode = 1, stdout = jstr ''{\"session_id\":\"s2\"}'', stderr = [],
            sessionId = Some (jstr ''s2'')\<rparr> \<and>
   throws world_exit1 (calls (snd (implement_until_agent world_exit1 cfg0 issue42 state0)))
     (RemoveLabel 42 LABELS_inProgress) = Some (jstr ''HTTP 500'') \<and>
   calls (snd (TaskHandler_handle world_exit1 cfg0 issue42 state0))
     = calls (snd (implement_until_agent world_exit1 cfg0 issue42 state0)) @
       [RemoveLabel 42 LABELS_inProgress,
        AddLabel 42 LABELS_failed,
        PostComment 42 (ImplementFailed (ClaudeExit 1)),
        Git [jstr ''worktree'', jstr ''remove'', jstr ''/app/.worktrees/issue-42'', jstr ''--force'']
          (jstr ''/app'')] \<and>
   count_calls is_push (snd (TaskHandler_handle world_exit1 cfg0 issue42 state0)) = 0 \<and>
   count_calls is_create_pr (snd (TaskHandler_handle world_exit1 cfg0 issue42 state0)) = 0 \<and>
   count_calls is_failure_label_add (snd (TaskHandler_handle world_exit1 cfg0 issue42 state0)) = 1 \<and>
   count_calls is_error_comment (snd (TaskHandler_handle world_exit1 cfg0 issue42 state0)) = 1 \<and>
   count_calls is_discard (snd (TaskHandler_handle world_exit1 cfg0 issue42 state0)) = 1 \<and>
   count_calls is_in_progress_removal (snd (TaskHandler_handle world_exit1 cfg0 issue42 state0)) = 1"
proof -
  have a: "calls state0 = []" by (simp add: state0_def)
  have b: "fst (implement_until_agent world_exit1 cfg0 issue42 state0)
     = Inr \<lparr>exitCode = 1, stdout = jstr ''{\"session_id\":\"s2\"}'', stderr = [],
            sessionId = Some (jstr ''s2'')\<rparr>"
    by code_simp
  have c: "throws world_exit1 before (RemoveLabel 42 LABELS_inProgress) = Some (jstr ''HTTP 500'')"
    for before
    by (simp add: world_exit1_def)
  have d: "number issue42 = 42" by (simp add: issue42_def)
  have e: "issue_worktree cfg0 issue42 = jstr ''/app/.worktrees/issue-42''" by code_simp
  have f: "repoRoot cfg0 = jstr ''/app''" by (simp add: cfg0_def)
  from implement_agent_failure
         [of state0 world_exit1 cfg0 issue42
             "\<lparr>exitCode = 1, stdout = jstr ''{\"session_id\":\"s2\"}'', stderr = [],
               sessionId = Some (jstr ''s2'')\<rparr>"]
       a b c d e f
  show ?thesis by simp
qed

text \<open>
  C2, the claim as stated: when the agent fails, the stored session id of the pull
  request would be unchanged.  In the run below the agent exits with code 1 after
  printing a session id; the store held \<open>s1\<close> for pull request 7 and holds \<open>s2\<close> afterwards.
\<close>

theorem review_store_only_on_success_counterexample:
  "fst (review_until_agent world_exit1 cfg0 7 [comment1]
          (snd (ext world_exit1 (GetPRBranch 7) state0)))
     = Inr \<lparr>exitCode = 1, stdout = jstr ''{\"session_id\":\"s2\"}'', stderr = [],
            sessionId = Some (jstr ''s2'')\<rparr> \<and>
   sessionStore state0 7 = Some (jstr ''s1'') \<and>
   sessionStore (snd (ReviewHandler_handle world_exit1 cfg0 7 [comment1] state0)) 7
     = Some (jstr ''s2'')"
  by code_simp

text \<open>
  C2, amended.  When the agent invocation returns a result, the stored session id of the
  pull request is overwritten exactly when the result carries a non-empty session id,
  and then with that session id, whatever the exit code; no other entry changes.  When
  \<open>getPRBranch\<close> throws, or a step before the agent or the agent invocation itself throws,
  the store is unchanged.
\<close>

theorem review_store_follows_session_id:
  "(throws w (calls s) (GetPRBranch prN) = None \<and>
    fst (review_until_agent w cfg prN comments (snd (ext w (GetPRBranch prN) s))) = Inr result \<longrightarrow>
      sessionStore (snd (ReviewHandler_handle w cfg prN comments s))
        = (if truthy (sessionId result) then (sessionStore s)(prN := sessionId result)
           else sessionStore s)) \<and>
   (throws w (calls s) (GetPRBranch prN) = Some msg \<or>
    fst (review_until_agent w cfg prN comments (snd (ext w (GetPRBranch prN) s))) = Inl err \<longrightarrow>
      sessionStore (snd (ReviewHandler_handle w cfg prN comments s)) = sessionStore s)"
proof -
  define s0 where "s0 = snd (ext w (GetPRBranch prN) s)"
  define r1 where "r1 = fst (review_until_agent w cfg prN comments s0)"
  define s1 where "s1 = snd (review_until_agent w cfg prN comments s0)"
  have s0_store: "sessionStore s0 = sessionStore s"
    by (simp add: s0_def ext_def)
  have s1_store: "sessionStore s1 = sessionStore s"
    using keeps_store_review_until_agent [of w cfg prN comments] s0_store
    by (simp add: s1_def keeps_store_def)
  have until: "review_until_agent w cfg prN comments s0 = (r1, s1)"
    by (simp add: r1_def s1_def)
  have thrown: "sessionStore (snd (ReviewHandler_handle w cfg prN comments s)) = sessionStore s"
    if "throws w (calls s) (GetPRBranch prN) = Some msg"
    using that by (simp add: ReviewHandler_handle_def ext_def)
  have entered: "sessionStore (snd (ReviewHandler_handle w cfg prN comments s))
      = sessionStore (snd (and_then (review_until_agent w cfg prN comments)
                             (review_after_agent w cfg prN) s0))"
    if "throws w (calls s) (GetPRBranch prN) = None"
    using that
    by (simp add: ReviewHandler_handle_def ext_def s0_def store_after_attempt_ext
          removeWorktree_def split: prod.splits sum.splits)
  have no_result: "sessionStore (snd (ReviewHandler_handle w cfg prN comments s)) = sessionStore s"
    if "r1 = Inl err"
  proof (cases "throws w (calls s) (GetPRBranch prN)")
    case None
    from that until have "and_then (review_until_agent w cfg prN comments)
        (review_after_agent w cfg prN) s0 = (Inl err, s1)"
      by (simp add: and_then_def)
    with entered [OF None] s1_store show ?thesis by simp
  next
    case (Some m)
    then show ?thesis by (simp add: ReviewHandler_handle_def ext_def)
  qed
  have with_result: "sessionStore (snd (ReviewHandler_handle w cfg prN comments s))
        = (if truthy (sessionId result) then (sessionStore s)(prN := sessionId result)
           else sessionStore s)"
    if "throws w (calls s) (GetPRBranch prN) = None" and "r1 = Inr result"
  proof -
    from that(2) until have "and_then (review_until_agent w cfg prN comments)
        (review_after_agent w cfg prN) s0 = review_after_agent w cfg prN result s1"
      by (simp add: and_then_def)
    with entered [OF that(1)] s1_store show ?thesis
      by (simp add: store_review_after_agent)
  qed
  from thrown no_result with_result show ?thesis
    unfolding r1_def s0_def by blast
qed

theorem review_store_follows_session_id_witness:
  "(throws world_exit1 (calls state0) (GetPRBranch 7) = None \<and>
    fst (review_until_agent world_exit1 cfg0 7 [comment1]
           (snd (ext world_exit1 (GetPRBranch 7) state0)))
      = Inr \<lparr>exitCode = 1, stdout = jstr ''{\"session_id\":\"s2\"}'', stderr = [],
             sessionId = Some (jstr ''s2'')\<rparr> \<and>
    sessionStore (snd (ReviewHandler_handle world_exit1 cfg0 7 [comment1] state0))
      = (sessionStore state0)(7 := Some (jstr ''s2''))) \<and>
   (throws world_no_branch (calls state0) (GetPRBranch 7) = Some (jstr ''HTTP 404'') \<and>
    sessionStore (snd (ReviewHandler_handle world_no_branch cfg0 7 [comment1] state0))
      = sessionStore state0)"
proof -
  have a: "throws world_exit1 (calls state0) (GetPRBranch 7) = None"
    by (simp add: world_exit1_def)
  have b: "fst (review_until_agent world_exit1 cfg0 7 [comment1]
           (snd (ext world_exit1 (GetPRBranch 7) state0)))
      = Inr \<lparr>exitCode = 1, stdout = jstr ''{\"session_id\":\"s2\"}'', stderr = [],
             sessionId = Some (jstr ''s2'')\<rparr>"
    by code_simp
  have c: "truthy (Some (jstr ''s2''))" by (simp add: jstr_def)
  have d: "throws world_no_branch (calls state0) (GetPRBranch 7) = Some (jstr ''HTTP 404'')"
    by (simp add: world_no_branch_def)
  from review_store_follows_session_id
         [of world_exit1 state0 7 cfg0 "[comment1]"
             "\<lparr>exitCode = 1, stdout = jstr ''{\"session_id\":\"s2\"}'', stderr = [],
               sessionId = Some (jstr ''s2'')\<rparr>" "jstr ''HTTP 404''" TypeError]
       review_store_follows_session_id
         [of world_no_branch state0 7 cfg0 "[comment1]"
             "\<lparr>exitCode = 1, stdout = jstr ''{\"session_id\":\"s2\"}'', stderr = [],
               sessionId = Some (jstr ''s2'')\<rparr>" "jstr ''HTTP 404''" TypeError]
       a b c d
  show ?thesis by simp
qed

end
